theory Spec2Isabelle
  imports Main "HOL-Library.Word"
begin

section \<open>The etcd-backed key-value client (src/cluster/kv/etcd/store.go)\<close>

text \<open>
  A shallow embedding of the client of \<^verbatim>\<open>store.go\<close>. Go's \<^verbatim>\<open>int64\<close> is a 64-bit word
  read as two's complement; Go's \<^verbatim>\<open>int\<close> is taken at its 64-bit width, so that the
  conversions \<^verbatim>\<open>int(x)\<close> of an \<^verbatim>\<open>int64\<close> are the identity. Strings and byte slices are
  \<open>string\<close>. Every method takes the client's state and returns the new one; the etcd
  client \<^verbatim>\<open>c.kv\<close> is a parameter: a record of functions over a transport state.
\<close>

subsection \<open>Errors\<close>

text \<open>
  The error values the client returns. \<open>TransportError\<close> carries whatever the etcd client
  reports, \<open>MarshalError\<close> what \<^verbatim>\<open>proto.Marshal\<close> reports; neither can be one of the
  package-level sentinels. \<open>CouldNotFindVersion\<close> is the \<^verbatim>\<open>fmt.Errorf\<close> of History,
  \<open>NoWatchableFound\<close> and \<open>ValueWatchableNotFound\<close> those of update.
  \<open>NonRetryableError\<close> is the retrier's wrapper. \<open>RuntimePanic\<close> is not an error value
  of the program: it stands for a run-time panic (an index out of range), which leaves
  every calling function at once.
\<close>

datatype error =
    ErrNotFound
  | ErrVersionMismatch
  | ErrAlreadyExists
  | ErrConditionCheckFailed
  | ErrUnknownTargetType
  | ErrUnknownCompareType
  | ErrUnknownOpType
  | errInvalidHistoryVersion
  | errNilPutResponse
  | TransportError string
  | MarshalError string
  | CouldNotFindVersion "64 word" string
  | NoWatchableFound string
  | ValueWatchableNotFound string
  | NonRetryableError error
  | RuntimePanic

subsection \<open>Values\<close>

type_synonym int64 = "64 word"
type_synonym goint = "64 word"

record value_t =
  Val :: string
  Ver :: int64
  Rev :: int64

definition newValue :: "string \<Rightarrow> int64 \<Rightarrow> int64 \<Rightarrow> value_t" where
  "newValue val ver revision = \<lparr>Val = val, Ver = ver, Rev = revision\<rparr>"

definition Version :: "value_t \<Rightarrow> goint" where
  "Version c = Ver c"

text \<open>
  A \<^verbatim>\<open>kv.Value\<close> is an interface: either this package's \<^verbatim>\<open>*value\<close>, or a value of
  another implementation, of which the client only ever calls \<^verbatim>\<open>Version()\<close>.
\<close>

datatype kv_value = EtcdValue value_t | ForeignValue goint

text \<open>
  \<^verbatim>\<open>IsNewer\<close>: the type assertion \<^verbatim>\<open>other.(*value)\<close> succeeds exactly on \<open>EtcdValue\<close>.
\<close>

fun IsNewer :: "value_t \<Rightarrow> kv_value \<Rightarrow> bool" where
  "IsNewer c (EtcdValue othervalue) = (Rev othervalue <s Rev c)"
| "IsNewer c (ForeignValue other_version) = (other_version <s Version c)"

subsection \<open>The transport\<close>

record KeyValue =
  kv_Key :: string
  kv_Value :: string
  kv_Version :: int64
  kv_ModRevision :: int64

record GetResponse =
  Count :: int64
  Kvs :: "KeyValue list"

record PutResponse =
  PrevKv :: "KeyValue option"

record DeleteResponse =
  Deleted :: int64
  PrevKvs :: "KeyValue list"

text \<open>
  One response of a transaction: \<^verbatim>\<open>GetResponsePut()\<close> is nil on every response that is
  not a put response.
\<close>

datatype ResponseOp = ResponsePut PutResponse | ResponseNotPut

record TxnResponse =
  Succeeded :: bool
  Responses :: "ResponseOp list"

datatype OpOption = WithSerializable | WithPrevKV | WithRev int64 | WithPrefix

datatype CmpTarget = CmpVersion string

datatype Cmp = Compare CmpTarget string goint

datatype Op = OpPut string string "OpOption list"

text \<open>
  The etcd client: each call takes the transport's state and returns an error message
  or a response, with the next state. The context a call takes is left out: its
  deadline shows as a request that returns an error. The cancel function that comes
  with the context is modelled below, with the options.
\<close>

record 'ts transport =
  kvGet :: "string \<Rightarrow> OpOption list \<Rightarrow> 'ts \<Rightarrow> (string + GetResponse) \<times> 'ts"
  kvPut :: "string \<Rightarrow> string \<Rightarrow> OpOption list \<Rightarrow> 'ts \<Rightarrow> (string + PutResponse) \<times> 'ts"
  kvDelete :: "string \<Rightarrow> OpOption list \<Rightarrow> 'ts \<Rightarrow> (string + DeleteResponse) \<times> 'ts"
  kvTxn :: "Cmp list \<Rightarrow> Op list \<Rightarrow> 'ts \<Rightarrow> (string + TxnResponse) \<times> 'ts"

subsection \<open>Options\<close>

record Options =
  Prefix :: string
  EnableFastGets :: bool
  RequestTimeout :: int64
  MaxRetries :: nat

text \<open>
  Modelled from the spec: \<^verbatim>\<open>Options.ApplyPrefix\<close> is not in \<^verbatim>\<open>store.go\<close>. The
  fully-qualified key is the concatenation of the configured prefix and the
  caller-supplied key.
\<close>

definition ApplyPrefix :: "Options \<Rightarrow> string \<Rightarrow> string" where
  "ApplyPrefix opts key = Prefix opts @ key"

subsection \<open>Request contexts\<close>

text \<open>
  \<^verbatim>\<open>c.context()\<close> returns a context and its cancel function, and every method that
  calls it defers the cancel function at once. The context only carries the deadline
  of the request (a request that times out returns an error), so the model keeps the
  cancel function alone. It is the one of \<^verbatim>\<open>context.WithTimeout\<close> when the request
  timeout is positive, and \<^verbatim>\<open>noopCancel\<close> otherwise; \<^verbatim>\<open>noopCancel\<close> is declared
  (\<^verbatim>\<open>var noopCancel func()\<close>) and never assigned: it is the nil function.
\<close>

datatype CancelFunc = NilFunc | TimeoutCancel

definition noopCancel :: CancelFunc where
  "noopCancel = NilFunc"

definition client_context :: "Options \<Rightarrow> CancelFunc" where
  "client_context opts = (if 0 < sint (RequestTimeout opts) then TimeoutCancel else noopCancel)"

text \<open>
  \<^verbatim>\<open>defer cancel()\<close>: the call is made when the method returns, after its body has
  run and with the state the body left. Calling the nil function panics, and the panic
  takes the place of the returned values (\<open>panicked\<close> below).
\<close>

definition deferred :: "CancelFunc \<Rightarrow> 'r \<Rightarrow> 'r \<times> 's \<Rightarrow> 'r \<times> 's" where
  "deferred cancel panicked out =
     (case cancel of NilFunc \<Rightarrow> (panicked, snd out) | TimeoutCancel \<Rightarrow> out)"

subsection \<open>The client and its cache\<close>

text \<open>
  The watchables of the registry: \<^verbatim>\<open>kv.ValueWatchable\<close> and \<^verbatim>\<open>kv.PrefixWatchable\<close> are
  not in \<^verbatim>\<open>store.go\<close>; their states are the type parameters \<open>'w\<close> and \<open>'p\<close>.
\<close>

datatype ('w, 'p) watchable = ValueW 'w | PrefixW 'p

text \<open>
  \<open>cacheValues\<close> is \<^verbatim>\<open>c.cache.Values\<close> (its entries are non-nil pointers),
  \<open>cacheUpdatedCh\<close> the number of signals waiting in the channel of capacity one,
  the three counters are those of \<^verbatim>\<open>clientMetrics\<close> that the modelled methods touch,
  and \<open>kv\<close> is the state of the transport behind \<^verbatim>\<open>c.kv\<close>.
\<close>

record ('ts, 'w, 'p) client =
  cacheValues :: "string \<rightharpoonup> value_t"
  cacheUpdatedCh :: nat
  etcdGetError :: nat
  etcdPutError :: nat
  etcdTnxError :: nat
  watchables :: "string \<rightharpoonup> ('w, 'p) watchable"
  kv :: 'ts

text \<open>The non-blocking send: the signal is dropped when the slot is taken.\<close>

definition notifyCacheUpdate :: "('ts, 'w, 'p) client \<Rightarrow> ('ts, 'w, 'p) client" where
  "notifyCacheUpdate c =
     (if cacheUpdatedCh c < 1 then c\<lparr>cacheUpdatedCh := cacheUpdatedCh c + 1\<rparr> else c)"

definition deleteCache :: "string \<Rightarrow> ('ts, 'w, 'p) client \<Rightarrow> ('ts, 'w, 'p) client" where
  "deleteCache key c =
     (case cacheValues c key of
        None \<Rightarrow> c
      | Some _ \<Rightarrow> notifyCacheUpdate (c\<lparr>cacheValues := (cacheValues c)(key := None)\<rparr>))"

definition getCache :: "string \<Rightarrow> ('ts, 'w, 'p) client \<Rightarrow> value_t option" where
  "getCache key c = cacheValues c key"

definition mergeCache :: "string \<Rightarrow> value_t \<Rightarrow> ('ts, 'w, 'p) client \<Rightarrow> ('ts, 'w, 'p) client" where
  "mergeCache key v c =
     (case cacheValues c key of
        None \<Rightarrow> notifyCacheUpdate (c\<lparr>cacheValues := (cacheValues c)(key \<mapsto> v)\<rparr>)
      | Some cur \<Rightarrow>
          if IsNewer v (EtcdValue cur)
          then notifyCacheUpdate (c\<lparr>cacheValues := (cacheValues c)(key \<mapsto> v)\<rparr>)
          else c)"

subsection \<open>Point reads\<close>

text \<open>
  \<^verbatim>\<open>get\<close> returns a value and an error, as the Go function does; the value is nil
  (\<open>None\<close>) whenever the error is not. \<^verbatim>\<open>r.Kvs[0]\<close> panics on an empty slice.
\<close>

definition get ::
  "'ts transport \<Rightarrow> Options \<Rightarrow> string \<Rightarrow> ('ts, 'w, 'p) client
     \<Rightarrow> (value_t option \<times> error option) \<times> ('ts, 'w, 'p) client" where
  "get tr opts key c =
     deferred (client_context opts) (None, Some RuntimePanic)
     (let op_opts = (if EnableFastGets opts then [WithSerializable] else [])
      in case kvGet tr key op_opts (kv c) of
        (Inl err, ts) \<Rightarrow>
          (let c1 = c\<lparr>kv := ts, etcdGetError := etcdGetError c + 1\<rparr>
           in case getCache key c1 of
                Some cachedV \<Rightarrow> ((Some cachedV, None), c1)
              | None \<Rightarrow> ((None, Some (TransportError err)), c1))
      | (Inr r, ts) \<Rightarrow>
          (let c1 = c\<lparr>kv := ts\<rparr>
           in if Count r = 0 then ((None, Some ErrNotFound), deleteCache key c1)
              else (case Kvs r of
                      [] \<Rightarrow> ((None, Some RuntimePanic), c1)
                    | kv0 # _ \<Rightarrow>
                        (let v = newValue (kv_Value kv0) (kv_Version kv0) (kv_ModRevision kv0)
                         in ((Some v, None), mergeCache key v c1)))))"

definition Get ::
  "'ts transport \<Rightarrow> Options \<Rightarrow> string \<Rightarrow> ('ts, 'w, 'p) client
     \<Rightarrow> (value_t option \<times> error option) \<times> ('ts, 'w, 'p) client" where
  "Get tr opts key c = get tr opts (ApplyPrefix opts key) c"

subsection \<open>The retrier\<close>

text \<open>
  Modelled from the spec: the retrier of \<^verbatim>\<open>x/retry\<close> and the non-retryable marker of
  \<^verbatim>\<open>x/errors\<close> are not in \<^verbatim>\<open>store.go\<close>. Retries are bounded; the sentinel
  "non-retryable" wraps an error to short-circuit the loop. \<open>Attempt n fn\<close> runs \<open>fn\<close>
  once and then at most \<open>n\<close> more times, until it returns no error or a non-retryable
  one. A panic inside \<open>fn\<close> is not a returned error and ends the loop at once.
\<close>

fun IsNonRetryableError :: "error \<Rightarrow> bool" where
  "IsNonRetryableError (NonRetryableError _) = True"
| "IsNonRetryableError _ = False"

fun GetInnerNonRetryableError :: "error \<Rightarrow> error option" where
  "GetInnerNonRetryableError (NonRetryableError e) = Some e"
| "GetInnerNonRetryableError _ = None"

fun Attempt :: "nat \<Rightarrow> ('s \<Rightarrow> error option \<times> 's) \<Rightarrow> 's \<Rightarrow> error option \<times> 's" where
  "Attempt 0 fn s = fn s"
| "Attempt (Suc n) fn s =
     (case fn s of
        (None, s') \<Rightarrow> (None, s')
      | (Some e, s') \<Rightarrow>
          if IsNonRetryableError e \<or> e = RuntimePanic then (Some e, s')
          else Attempt n fn s')"

text \<open>
  \<^verbatim>\<open>getFromKVStore\<close>: the closure writes the captured variables \<^verbatim>\<open>nv\<close> and \<^verbatim>\<open>err\<close>,
  which are part of the state the retrier threads through the attempts.
\<close>

definition getFromKVStore_fn ::
  "'ts transport \<Rightarrow> Options \<Rightarrow> string
     \<Rightarrow> (value_t option \<times> error option) \<times> ('ts, 'w, 'p) client
     \<Rightarrow> error option \<times> ((value_t option \<times> error option) \<times> ('ts, 'w, 'p) client)" where
  "getFromKVStore_fn tr opts key s =
     (case get tr opts key (snd s) of
        ((nv, err), c') \<Rightarrow>
          (if err = Some ErrNotFound then Some (NonRetryableError ErrNotFound) else err,
           ((nv, err), c')))"

definition getFromKVStore ::
  "'ts transport \<Rightarrow> Options \<Rightarrow> string \<Rightarrow> ('ts, 'w, 'p) client
     \<Rightarrow> (value_t option \<times> error option) \<times> ('ts, 'w, 'p) client" where
  "getFromKVStore tr opts key c =
     (case Attempt (MaxRetries opts) (getFromKVStore_fn tr opts key) ((None, None), c) of
        (execErr, ((nv, err), c')) \<Rightarrow>
          (case execErr of
             Some e \<Rightarrow>
               if GetInnerNonRetryableError e \<noteq> Some ErrNotFound
               then ((None, Some e), c')
               else ((nv, None), c')
           | None \<Rightarrow> ((nv, None), c')))"

subsection \<open>The update callback\<close>

datatype EventType = EventTypePut | EventTypeDelete

record Event =
  ev_Type :: EventType
  ev_Kv :: KeyValue

text \<open>\<^verbatim>\<open>events[len(events)-1]\<close> panics on an empty batch.\<close>

definition getFromEtcdEvents ::
  "string \<Rightarrow> Event list \<Rightarrow> ('ts, 'w, 'p) client
     \<Rightarrow> (error + value_t option) \<times> ('ts, 'w, 'p) client" where
  "getFromEtcdEvents key events c =
     (if events = [] then (Inl RuntimePanic, c)
      else (let lastEvent = last events
            in if ev_Type lastEvent = EventTypeDelete then (Inr None, deleteCache key c)
               else (let nv = newValue (kv_Value (ev_Kv lastEvent)) (kv_Version (ev_Kv lastEvent))
                                 (kv_ModRevision (ev_Kv lastEvent))
                     in (Inr (Some nv), mergeCache key nv c))))"

text \<open>
  The two methods of \<^verbatim>\<open>kv.ValueWatchable\<close> that the callback calls, over the
  watchable's state.
\<close>

record 'w watchable_ops =
  wGet :: "'w \<Rightarrow> kv_value option"
  wUpdate :: "kv_value option \<Rightarrow> 'w \<Rightarrow> error option \<times> 'w"

text \<open>
  \<^verbatim>\<open>update\<close>: the first component of the result is the returned error (\<open>None\<close> for
  nil). A watchable is a shared object: the state an Update leaves is written back to
  the registry entry.
\<close>

definition update ::
  "'ts transport \<Rightarrow> Options \<Rightarrow> 'w watchable_ops \<Rightarrow> string \<Rightarrow> Event list
     \<Rightarrow> ('ts, 'w, 'p) client \<Rightarrow> error option \<times> ('ts, 'w, 'p) client" where
  "update tr opts wo key events c =
     (case (if length events = 0 then
              (case getFromKVStore tr opts key c of
                 ((nv, Some err), c1) \<Rightarrow>
                   (Inl (if err = RuntimePanic then Some RuntimePanic else None), c1)
               | ((nv, None), c1) \<Rightarrow> (Inr nv, c1))
            else
              (case getFromEtcdEvents key events c of
                 (Inl err, c1) \<Rightarrow> (Inl (Some err), c1)
               | (Inr nv, c1) \<Rightarrow> (Inr nv, c1))) of
        (Inl ret, c1) \<Rightarrow> (ret, c1)
      | (Inr nv, c1) \<Rightarrow>
          (case watchables c1 key of
             None \<Rightarrow> (Some (NoWatchableFound key), c1)
           | Some (PrefixW _) \<Rightarrow> (Some (ValueWatchableNotFound key), c1)
           | Some (ValueW w) \<Rightarrow>
               (let curValue = wGet wo w
                in case nv of
                     None \<Rightarrow>
                       (if curValue = None then (None, c1)
                        else (case wUpdate wo None w of
                                (e, w') \<Rightarrow>
                                  (e, c1\<lparr>watchables := (watchables c1)(key \<mapsto> ValueW w')\<rparr>)))
                   | Some v \<Rightarrow>
                       (if (case curValue of None \<Rightarrow> True | Some cur \<Rightarrow> IsNewer v cur)
                        then (case wUpdate wo (Some (EtcdValue v)) w of
                                (e, w') \<Rightarrow>
                                  (e, c1\<lparr>watchables := (watchables c1)(key \<mapsto> ValueW w')\<rparr>))
                        else (None, c1)))))"

subsection \<open>History\<close>

text \<open>\<^verbatim>\<open>res[i] = v\<close> on a slice: an index out of range panics.\<close>

definition storeAt :: "'a list \<Rightarrow> goint \<Rightarrow> 'a \<Rightarrow> error + 'a list" where
  "storeAt res i v =
     (if 0 \<le> sint i \<and> nat (sint i) < length res then Inr (res[nat (sint i) := v])
      else Inl RuntimePanic)"

text \<open>
  The loop \<^verbatim>\<open>for version > from\<close> of History. Nothing in the code bounds the number of
  its rounds (the transport decides what each read returns), so the loop is a partial
  function: \<open>None\<close> is a run that never ends.
\<close>

partial_function (option) historyLoop ::
  "'ts transport \<Rightarrow> string \<Rightarrow> string \<Rightarrow> goint \<Rightarrow> goint \<Rightarrow> goint \<Rightarrow> int64
     \<Rightarrow> value_t option list \<Rightarrow> 'ts \<Rightarrow> ((error + value_t option list) \<times> 'ts) option" where
  "historyLoop tr key newKey from to version modRev res ts =
     (if sint from < sint version then
        (case kvGet tr newKey [WithRev (modRev - 1)] ts of
           (Inl err, ts') \<Rightarrow> Some (Inl (TransportError err), ts')
         | (Inr r, ts') \<Rightarrow>
             if Count r = 0 then Some (Inl (CouldNotFindVersion (version - 1) key), ts')
             else (case Kvs r of
                     [] \<Rightarrow> Some (Inl RuntimePanic, ts')
                   | v # _ \<Rightarrow>
                       if sint (kv_Version v) < sint to then
                         (case storeAt res (kv_Version v - from)
                                 (Some (newValue (kv_Value v) (kv_Version v) (kv_ModRevision v))) of
                            Inl e \<Rightarrow> Some (Inl e, ts')
                          | Inr res' \<Rightarrow>
                              historyLoop tr key newKey from to (kv_Version v) (kv_ModRevision v)
                                res' ts')
                       else historyLoop tr key newKey from to (kv_Version v) (kv_ModRevision v)
                              res ts'))
      else Some (Inr res, ts))"

text \<open>
  \<^verbatim>\<open>History\<close>: \<^verbatim>\<open>make\<close> panics on a negative length. The result slice holds nil
  (\<open>None\<close>) wherever nothing was stored; a nil slice is the empty list. The cancel
  function is deferred after the two argument checks, and once more in every round of
  the loop; all of them are the same function, so the deferred calls panic on return
  exactly when the first one is nil.
\<close>

definition History ::
  "'ts transport \<Rightarrow> Options \<Rightarrow> string \<Rightarrow> goint \<Rightarrow> goint \<Rightarrow> ('ts, 'w, 'p) client
     \<Rightarrow> ((error + value_t option list) \<times> ('ts, 'w, 'p) client) option" where
  "History tr opts key from to c =
     (if sint to < sint from \<or> sint from < 0 \<or> sint to < 0
      then Some (Inl errInvalidHistoryVersion, c)
      else if from = to then Some (Inr [], c)
      else map_option (deferred (client_context opts) (Inl RuntimePanic))
           (let newKey = ApplyPrefix opts key
            in case kvGet tr newKey [] (kv c) of
                 (Inl err, ts) \<Rightarrow> Some (Inl (TransportError err), c\<lparr>kv := ts\<rparr>)
               | (Inr r, ts) \<Rightarrow>
                   if Count r = 0 then Some (Inl ErrNotFound, c\<lparr>kv := ts\<rparr>)
                   else (case Kvs r of
                           [] \<Rightarrow> Some (Inl RuntimePanic, c\<lparr>kv := ts\<rparr>)
                         | latestKV # _ \<Rightarrow>
                             (let version = kv_Version latestKV;
                                  modRev = kv_ModRevision latestKV
                              in if sint version < sint from then Some (Inr [], c\<lparr>kv := ts\<rparr>)
                                 else (let numValue =
                                             (if sint (version - from + 1) < sint (to - from)
                                              then version - from + 1 else to - from)
                                       in if sint numValue < 0
                                          then Some (Inl RuntimePanic, c\<lparr>kv := ts\<rparr>)
                                          else (case (if sint version < sint to
                                                      then storeAt (replicate (nat (sint numValue)) None)
                                                             (version - from)
                                                             (Some (newValue (kv_Value latestKV)
                                                                (kv_Version latestKV) modRev))
                                                      else Inr (replicate (nat (sint numValue)) None)) of
                                                  Inl e \<Rightarrow> Some (Inl e, c\<lparr>kv := ts\<rparr>)
                                                | Inr res \<Rightarrow>
                                                    (case historyLoop tr key newKey from to version
                                                            modRev res ts of
                                                       None \<Rightarrow> None
                                                     | Some (r', ts') \<Rightarrow>
                                                         Some (r', c\<lparr>kv := ts'\<rparr>))))))))"

subsection \<open>Writes\<close>

definition etcdVersionZero :: goint where
  "etcdVersionZero = 0"

text \<open>
  \<^verbatim>\<open>proto.Marshal\<close> is the parameter \<open>marshal\<close>: it returns an error message or the
  serialized bytes.
\<close>

definition Set ::
  "'ts transport \<Rightarrow> Options \<Rightarrow> ('m \<Rightarrow> string + string) \<Rightarrow> string \<Rightarrow> 'm
     \<Rightarrow> ('ts, 'w, 'p) client \<Rightarrow> (goint \<times> error option) \<times> ('ts, 'w, 'p) client" where
  "Set tr opts marshal key v c =
     deferred (client_context opts) (0, Some RuntimePanic)
     (case marshal v of
        Inl err \<Rightarrow> ((0, Some (MarshalError err)), c)
      | Inr val \<Rightarrow>
          (case kvPut tr (ApplyPrefix opts key) val [WithPrevKV] (kv c) of
             (Inl err, ts) \<Rightarrow>
               ((0, Some (TransportError err)), c\<lparr>kv := ts, etcdPutError := etcdPutError c + 1\<rparr>)
           | (Inr r, ts) \<Rightarrow>
               (case PrevKv r of
                  None \<Rightarrow> ((etcdVersionZero + 1, None), c\<lparr>kv := ts\<rparr>)
                | Some prev \<Rightarrow> ((kv_Version prev + 1, None), c\<lparr>kv := ts\<rparr>))))"

text \<open>
  Modelled from the spec: the comparison types of the \<^verbatim>\<open>kv\<close> package are not in
  \<^verbatim>\<open>store.go\<close>. The one comparison in use is equality, \<^verbatim>\<open>Version(key) == <int>\<close>:
  \<open>CompareEqual\<close>, with the string the etcd comparison takes for it; \<open>CompareOther\<close>
  is any other enumerant.
\<close>

datatype CompareType = CompareEqual | CompareOther

definition CompareEqual_String :: string where
  "CompareEqual_String = ''=''"

definition CheckAndSet ::
  "'ts transport \<Rightarrow> Options \<Rightarrow> ('m \<Rightarrow> string + string) \<Rightarrow> string \<Rightarrow> goint \<Rightarrow> 'm
     \<Rightarrow> ('ts, 'w, 'p) client \<Rightarrow> (goint \<times> error option) \<times> ('ts, 'w, 'p) client" where
  "CheckAndSet tr opts marshal key version v c =
     deferred (client_context opts) (0, Some RuntimePanic)
     (case marshal v of
        Inl err \<Rightarrow> ((0, Some (MarshalError err)), c)
      | Inr val \<Rightarrow>
          (let key' = ApplyPrefix opts key
           in case kvTxn tr [Compare (CmpVersion key') CompareEqual_String version]
                     [OpPut key' val []] (kv c) of
                (Inl err, ts) \<Rightarrow>
                  ((0, Some (TransportError err)),
                   c\<lparr>kv := ts, etcdTnxError := etcdTnxError c + 1\<rparr>)
              | (Inr r, ts) \<Rightarrow>
                  if \<not> Succeeded r then ((0, Some ErrVersionMismatch), c\<lparr>kv := ts\<rparr>)
                  else ((version + 1, None), c\<lparr>kv := ts\<rparr>)))"

definition SetIfNotExists ::
  "'ts transport \<Rightarrow> Options \<Rightarrow> ('m \<Rightarrow> string + string) \<Rightarrow> string \<Rightarrow> 'm
     \<Rightarrow> ('ts, 'w, 'p) client \<Rightarrow> (goint \<times> error option) \<times> ('ts, 'w, 'p) client" where
  "SetIfNotExists tr opts marshal key v c =
     (case CheckAndSet tr opts marshal key etcdVersionZero v c of
        ((version, err), c') \<Rightarrow>
          ((version, if err = Some ErrVersionMismatch then Some ErrAlreadyExists else err), c'))"

text \<open>\<^verbatim>\<open>r.PrevKvs[0]\<close> is read before the cache is touched, and panics on an empty slice.\<close>

definition Delete ::
  "'ts transport \<Rightarrow> Options \<Rightarrow> string \<Rightarrow> ('ts, 'w, 'p) client
     \<Rightarrow> (value_t option \<times> error option) \<times> ('ts, 'w, 'p) client" where
  "Delete tr opts key c =
     deferred (client_context opts) (None, Some RuntimePanic)
     (let key' = ApplyPrefix opts key
      in case kvDelete tr key' [WithPrevKV] (kv c) of
           (Inl err, ts) \<Rightarrow> ((None, Some (TransportError err)), c\<lparr>kv := ts\<rparr>)
         | (Inr r, ts) \<Rightarrow>
             if Deleted r = 0 then ((None, Some ErrNotFound), c\<lparr>kv := ts\<rparr>)
             else (case PrevKvs r of
                     [] \<Rightarrow> ((None, Some RuntimePanic), c\<lparr>kv := ts\<rparr>)
                   | p # _ \<Rightarrow>
                       (let prevKV = newValue (kv_Value p) (kv_Version p) (kv_ModRevision p)
                        in ((Some prevKV, None), deleteCache key' (c\<lparr>kv := ts\<rparr>)))))"

subsection \<open>Transactions\<close>

text \<open>
  Modelled from the spec: the conditions, operations and responses of the \<^verbatim>\<open>kv\<close>
  package are not in \<^verbatim>\<open>store.go\<close>. A condition has a target type (\<open>TargetOther\<close> is any
  target but the version), a comparison type, a key and a value;
  \<open>SetOp\<close> is the one operation whose \<^verbatim>\<open>Type()\<close> is \<^verbatim>\<open>kv.OpSet\<close>; an operation's
  response is the operation and the value \<^verbatim>\<open>SetValue\<close> stored (\<open>None\<close> before).
\<close>

datatype TargetType = TargetVersion | TargetOther

record Condition =
  cond_TargetType :: TargetType
  cond_CompareType :: CompareType
  cond_Key :: string
  cond_Value :: goint

datatype 'm kv_Op = SetOp string 'm | OtherOp

datatype OpType = OpSet | OpUnknown

fun Op_Type :: "'m kv_Op \<Rightarrow> OpType" where
  "Op_Type (SetOp _ _) = OpSet"
| "Op_Type OtherOp = OpUnknown"

record 'm OpResponse =
  resp_Op :: "'m kv_Op"
  resp_Value :: "goint option"

definition NewOpResponse :: "'m kv_Op \<Rightarrow> 'm OpResponse" where
  "NewOpResponse op = \<lparr>resp_Op = op, resp_Value = None\<rparr>"

definition processCondition :: "Options \<Rightarrow> Condition \<Rightarrow> error + Cmp" where
  "processCondition opts condition =
     (case cond_TargetType condition of
        TargetVersion \<Rightarrow>
          (let cmp = CmpVersion (ApplyPrefix opts (cond_Key condition))
           in case cond_CompareType condition of
                CompareEqual \<Rightarrow> Inr (Compare cmp CompareEqual_String (cond_Value condition))
              | _ \<Rightarrow> Inl ErrUnknownCompareType)
      | _ \<Rightarrow> Inl ErrUnknownTargetType)"

definition processOp :: "Options \<Rightarrow> ('m \<Rightarrow> string + string) \<Rightarrow> 'm kv_Op \<Rightarrow> error + Op" where
  "processOp opts marshal op =
     (case op of
        SetOp key v \<Rightarrow>
          (case marshal v of
             Inl err \<Rightarrow> Inl (MarshalError err)
           | Inr val \<Rightarrow> Inr (OpPut (ApplyPrefix opts key) val [WithPrevKV]))
      | _ \<Rightarrow> Inl ErrUnknownOpType)"

text \<open>The two loops of Commit that build the comparisons and the operations.\<close>

fun processConditions :: "Options \<Rightarrow> Condition list \<Rightarrow> error + Cmp list" where
  "processConditions opts [] = Inr []"
| "processConditions opts (condition # conditions) =
     (case processCondition opts condition of
        Inl err \<Rightarrow> Inl err
      | Inr cmp \<Rightarrow>
          (case processConditions opts conditions of
             Inl err \<Rightarrow> Inl err
           | Inr cmps \<Rightarrow> Inr (cmp # cmps)))"

fun processOps ::
  "Options \<Rightarrow> ('m \<Rightarrow> string + string) \<Rightarrow> 'm kv_Op list
     \<Rightarrow> error + (Op list \<times> 'm OpResponse list)" where
  "processOps opts marshal [] = Inr ([], [])"
| "processOps opts marshal (op # ops) =
     (case processOp opts marshal op of
        Inl err \<Rightarrow> Inl err
      | Inr etcdOp \<Rightarrow>
          (case processOps opts marshal ops of
             Inl err \<Rightarrow> Inl err
           | Inr (etcdOps, opResponses) \<Rightarrow> Inr (etcdOp # etcdOps, NewOpResponse op # opResponses)))"

text \<open>
  The loop \<^verbatim>\<open>for i := range r.Responses\<close>: \<^verbatim>\<open>opResponses[i]\<close> panics when the transport
  returns more responses than there are operations.
\<close>

fun setResponses :: "ResponseOp list \<Rightarrow> 'm OpResponse list \<Rightarrow> error + 'm OpResponse list" where
  "setResponses [] opResponses = Inr opResponses"
| "setResponses (r # rs) [] = Inl RuntimePanic"
| "setResponses (r # rs) (opr # oprs) =
     (case Op_Type (resp_Op opr) of
        OpSet \<Rightarrow>
          (case r of
             ResponseNotPut \<Rightarrow> Inl errNilPutResponse
           | ResponsePut res \<Rightarrow>
               (case setResponses rs oprs of
                  Inl err \<Rightarrow> Inl err
                | Inr rest \<Rightarrow>
                    Inr ((case PrevKv res of
                            Some prev \<Rightarrow> opr\<lparr>resp_Value := Some (kv_Version prev + 1)\<rparr>
                          | None \<Rightarrow> opr\<lparr>resp_Value := Some (etcdVersionZero + 1)\<rparr>) # rest)))
      | _ \<Rightarrow>
          (case setResponses rs oprs of
             Inl err \<Rightarrow> Inl err
           | Inr rest \<Rightarrow> Inr (opr # rest)))"

definition Commit ::
  "'ts transport \<Rightarrow> Options \<Rightarrow> ('m \<Rightarrow> string + string) \<Rightarrow> Condition list \<Rightarrow> 'm kv_Op list
     \<Rightarrow> ('ts, 'w, 'p) client \<Rightarrow> (error + 'm OpResponse list) \<times> ('ts, 'w, 'p) client" where
  "Commit tr opts marshal conditions ops c =
     deferred (client_context opts) (Inl RuntimePanic)
     (case processConditions opts conditions of
        Inl err \<Rightarrow> (Inl err, c)
      | Inr cmps \<Rightarrow>
          (case processOps opts marshal ops of
             Inl err \<Rightarrow> (Inl err, c)
           | Inr (etcdOps, opResponses) \<Rightarrow>
               (case kvTxn tr cmps etcdOps (kv c) of
                  (Inl err, ts) \<Rightarrow>
                    (Inl (TransportError err), c\<lparr>kv := ts, etcdTnxError := etcdTnxError c + 1\<rparr>)
                | (Inr r, ts) \<Rightarrow>
                    if \<not> Succeeded r then (Inl ErrConditionCheckFailed, c\<lparr>kv := ts\<rparr>)
                    else (setResponses (Responses r) opResponses, c\<lparr>kv := ts\<rparr>))))"

section \<open>Concrete instances\<close>

text \<open>
  A transport that answers every request of a kind with one fixed answer; its state
  counts the requests it has served.
\<close>

definition scripted ::
  "(string + GetResponse) \<Rightarrow> (string + PutResponse) \<Rightarrow> (string + DeleteResponse)
     \<Rightarrow> (string + TxnResponse) \<Rightarrow> nat transport" where
  "scripted g p d t =
     \<lparr>kvGet = (\<lambda>_ _ n. (g, Suc n)), kvPut = (\<lambda>_ _ _ n. (p, Suc n)),
      kvDelete = (\<lambda>_ _ n. (d, Suc n)), kvTxn = (\<lambda>_ _ n. (t, Suc n))\<rparr>"

definition unavailable :: "string + 'a" where
  "unavailable = Inl ''unavailable''"

definition exOpts :: Options where
  "exOpts = \<lparr>Prefix = ''/p/'', EnableFastGets = False, RequestTimeout = 10, MaxRetries = 2\<rparr>"

text \<open>The same options with the request timeout at 0, which stands for no timeout.\<close>

definition exOptsNoTimeout :: Options where
  "exOptsNoTimeout = exOpts\<lparr>RequestTimeout := 0\<rparr>"

definition exMarshal :: "string \<Rightarrow> string + string" where
  "exMarshal m = Inr m"

text \<open>
  A client whose cache holds one entry, for the fully-qualified key \<open>''/p/k''\<close>, and
  whose registry holds one single-value watchable, for the same key, with that value.
\<close>

definition exClient :: "(nat, kv_value option, unit) client" where
  "exClient =
     \<lparr>cacheValues = [''/p/k'' \<mapsto> newValue ''a'' 2 7], cacheUpdatedCh = 0,
      etcdGetError = 0, etcdPutError = 0, etcdTnxError = 0,
      watchables = [''/p/k'' \<mapsto> ValueW (Some (EtcdValue (newValue ''a'' 2 7)))], kv = 0\<rparr>"

definition exKV :: "string \<Rightarrow> int64 \<Rightarrow> int64 \<Rightarrow> KeyValue" where
  "exKV val ver revision =
     \<lparr>kv_Key = ''/p/k'', kv_Value = val, kv_Version = ver, kv_ModRevision = revision\<rparr>"

text \<open>Transports with one scripted answer for the kind of request each scenario makes.\<close>

definition getHit :: "nat transport" where
  "getHit = scripted (Inr \<lparr>Count = 1, Kvs = [exKV ''b'' 3 9]\<rparr>) unavailable unavailable unavailable"

definition getMiss :: "nat transport" where
  "getMiss = scripted (Inr \<lparr>Count = 0, Kvs = []\<rparr>) unavailable unavailable unavailable"

definition down :: "nat transport" where
  "down = scripted unavailable unavailable unavailable unavailable"

definition txnOK :: "nat transport" where
  "txnOK = scripted unavailable unavailable unavailable
     (Inr \<lparr>Succeeded = True,
           Responses = [ResponsePut \<lparr>PrevKv = Some (exKV ''a'' 2 7)\<rparr>, ResponsePut \<lparr>PrevKv = None\<rparr>]\<rparr>)"

definition txnFail :: "nat transport" where
  "txnFail = scripted unavailable unavailable unavailable (Inr \<lparr>Succeeded = False, Responses = []\<rparr>)"

definition putFirst :: "nat transport" where
  "putFirst = scripted unavailable (Inr \<lparr>PrevKv = None\<rparr>) unavailable unavailable"

definition putNext :: "nat transport" where
  "putNext = scripted unavailable (Inr \<lparr>PrevKv = Some (exKV ''a'' 2 7)\<rparr>) unavailable unavailable"

definition delOK :: "nat transport" where
  "delOK = scripted unavailable unavailable (Inr \<lparr>Deleted = 1, PrevKvs = [exKV ''a'' 2 7]\<rparr>) unavailable"

definition delNone :: "nat transport" where
  "delNone = scripted unavailable unavailable (Inr \<lparr>Deleted = 0, PrevKvs = []\<rparr>) unavailable"

text \<open>
  A store in the manner of etcd's multi-version store, for the scenarios that read
  history: the log of every write, oldest first. The first write has revision 2 (an
  empty etcd is at revision 1) and every write takes the next revision; a key's version
  is one more than its previous version, 1 at its first write. A read at a revision
  returns the key's newest KV at or before it, a read with no revision (or one that is
  not positive) the newest of all. Only Get and Put are answered.
\<close>

fun revOf :: "OpOption list \<Rightarrow> int64" where
  "revOf [] = 0"
| "revOf (WithRev r # _) = r"
| "revOf (_ # os) = revOf os"

definition latestAt :: "KeyValue list \<Rightarrow> string \<Rightarrow> int64 \<Rightarrow> KeyValue option" where
  "latestAt log key r =
     (case filter (\<lambda>e. kv_Key e = key \<and> (sint r \<le> 0 \<or> sint (kv_ModRevision e) \<le> sint r)) log of
        [] \<Rightarrow> None
      | e # es \<Rightarrow> Some (last (e # es)))"

definition storeGet ::
  "string \<Rightarrow> OpOption list \<Rightarrow> KeyValue list \<Rightarrow> (string + GetResponse) \<times> KeyValue list" where
  "storeGet key os log =
     (case latestAt log key (revOf os) of
        None \<Rightarrow> (Inr \<lparr>Count = 0, Kvs = []\<rparr>, log)
      | Some e \<Rightarrow> (Inr \<lparr>Count = 1, Kvs = [e]\<rparr>, log))"

definition storePut ::
  "string \<Rightarrow> string \<Rightarrow> OpOption list \<Rightarrow> KeyValue list \<Rightarrow> (string + PutResponse) \<times> KeyValue list" where
  "storePut key val os log =
     (let prev = latestAt log key 0;
          revision = (if log = [] then 2 else kv_ModRevision (last log) + 1);
          version = (case prev of None \<Rightarrow> 1 | Some p \<Rightarrow> kv_Version p + 1)
      in (Inr \<lparr>PrevKv = (if List.member os WithPrevKV then prev else None)\<rparr>,
          log @ [\<lparr>kv_Key = key, kv_Value = val, kv_Version = version, kv_ModRevision = revision\<rparr>]))"

definition putStore :: "KeyValue list transport" where
  "putStore =
     \<lparr>kvGet = storeGet, kvPut = storePut,
      kvDelete = (\<lambda>_ _ log. (unavailable, log)), kvTxn = (\<lambda>_ _ log. (unavailable, log))\<rparr>"

text \<open>The client in front of the empty store, and the client after a list of Sets of one key.\<close>

definition emptyClient :: "(KeyValue list, kv_value option, unit) client" where
  "emptyClient =
     \<lparr>cacheValues = Map.empty, cacheUpdatedCh = 0, etcdGetError = 0, etcdPutError = 0,
      etcdTnxError = 0, watchables = Map.empty, kv = []\<rparr>"

definition writeAll ::
  "Options \<Rightarrow> string \<Rightarrow> string list \<Rightarrow> (KeyValue list, kv_value option, unit) client
     \<Rightarrow> (KeyValue list, kv_value option, unit) client" where
  "writeAll opts k ms c = fold (\<lambda>m c. snd (Set putStore opts Inr k m c)) ms c"

definition fiveWrites :: "(KeyValue list, kv_value option, unit) client" where
  "fiveWrites = writeAll exOpts ''k'' [''v1'', ''v2'', ''v3'', ''v4'', ''v5''] emptyClient"

text \<open>
  Modelled from the spec: \<^verbatim>\<open>kv.ValueWatchable\<close> is not in \<^verbatim>\<open>store.go\<close>. The state of
  a single-value watchable is the value it holds. Update accepts nil (a tombstone) to
  propagate deletion; otherwise it is applied only when the new value is strictly newer
  than the current one, where IsNewer compares by revision when both sides carry one,
  otherwise by version.
\<close>

fun kv_Version_of :: "kv_value \<Rightarrow> goint" where
  "kv_Version_of (EtcdValue v) = Version v"
| "kv_Version_of (ForeignValue ver) = ver"

fun kv_IsNewer :: "kv_value \<Rightarrow> kv_value \<Rightarrow> bool" where
  "kv_IsNewer (EtcdValue v) other = IsNewer v other"
| "kv_IsNewer (ForeignValue ver) other = (kv_Version_of other <s ver)"

definition valueWatchable :: "(kv_value option) watchable_ops" where
  "valueWatchable =
     \<lparr>wGet = (\<lambda>held. held),
      wUpdate = (\<lambda>newValue held.
         case newValue of
           None \<Rightarrow> (None, None)
         | Some nv \<Rightarrow>
             (case held of
                None \<Rightarrow> (None, Some nv)
              | Some cur \<Rightarrow> if kv_IsNewer nv cur then (None, Some nv) else (None, held)))\<rparr>"

section \<open>Properties\<close>

subsection \<open>Helper facts\<close>

lemma deferred_timeout:
  "0 < sint (RequestTimeout opts) \<Longrightarrow> deferred (client_context opts) panicked out = out"
  by (simp add: deferred_def client_context_def)

lemma deferred_nil:
  "\<not> 0 < sint (RequestTimeout opts) \<Longrightarrow>
   deferred (client_context opts) panicked out = (panicked, snd out)"
  by (simp add: deferred_def client_context_def noopCancel_def)

lemma snd_deferred: "snd (deferred cancel panicked out) = snd out"
  by (cases cancel) (simp_all add: deferred_def)

lemma notify_cacheValues: "cacheValues (notifyCacheUpdate c) = cacheValues c"
  by (simp add: notifyCacheUpdate_def)

lemma cacheValues_deleteCache: "cacheValues (deleteCache key c) = (cacheValues c)(key := None)"
  by (cases "cacheValues c key") (auto simp: deleteCache_def notify_cacheValues)

lemma cacheValues_mergeCache:
  "cacheValues (mergeCache key v c) =
     (case cacheValues c key of
        None \<Rightarrow> (cacheValues c)(key \<mapsto> v)
      | Some cur \<Rightarrow>
          if sint (Rev cur) < sint (Rev v) then (cacheValues c)(key \<mapsto> v) else cacheValues c)"
  by (cases "cacheValues c key") (auto simp: mergeCache_def notify_cacheValues word_sless_alt)

lemma storeAt_error: "storeAt res i v = Inl e \<Longrightarrow> e = RuntimePanic"
  by (auto simp: storeAt_def split: if_splits)

lemma historyLoop_error:
  "historyLoop tr key newKey from to version modRev res ts = Some y \<Longrightarrow>
   fst y \<noteq> Inl errInvalidHistoryVersion"
  apply (erule historyLoop.raw_induct[rotated])
  apply (auto split: if_splits prod.splits sum.splits list.splits dest: storeAt_error)
  done

lemma processOps_shape:
  "processOps opts marshal ops = Inr (etcdOps, opResponses) \<Longrightarrow>
   opResponses = map NewOpResponse ops \<and> (\<forall>op \<in> set ops. Op_Type op = OpSet)"
proof (induction ops arbitrary: etcdOps opResponses)
  case Nil
  then show ?case by simp
next
  case (Cons op ops)
  then show ?case
    by (cases op) (auto simp: processOp_def split: sum.splits)
qed

lemma setResponses_values:
  "setResponses rs oprs = Inr out \<Longrightarrow> \<forall>opr \<in> set oprs. Op_Type (resp_Op opr) = OpSet \<Longrightarrow>
   length out = length oprs \<and> length rs \<le> length oprs \<and>
   (\<forall>i < length oprs. resp_Op (out ! i) = resp_Op (oprs ! i)) \<and>
   (\<forall>i < length rs. \<exists>res. rs ! i = ResponsePut res \<and>
        resp_Value (out ! i) =
          Some (case PrevKv res of None \<Rightarrow> 1 | Some prev \<Rightarrow> kv_Version prev + 1))"
proof (induction rs oprs arbitrary: out rule: setResponses.induct)
  case (1 opResponses)
  then show ?case by simp
next
  case (2 r rs)
  then show ?case by simp
next
  case (3 r rs opr oprs)
  from "3.prems" obtain res rest where r: "r = ResponsePut res"
    and rest: "setResponses rs oprs = Inr rest"
    and out: "out = (case PrevKv res of
                       Some prev \<Rightarrow> opr\<lparr>resp_Value := Some (kv_Version prev + 1)\<rparr>
                     | None \<Rightarrow> opr\<lparr>resp_Value := Some (etcdVersionZero + 1)\<rparr>) # rest"
    by (auto split: ResponseOp.splits sum.splits)
  from "3.prems" have set: "Op_Type (resp_Op opr) = OpSet" by simp
  from "3.prems" have all: "\<forall>opr \<in> set oprs. Op_Type (resp_Op opr) = OpSet" by simp
  note IH = "3.IH"(1)[OF set r rest all]
  show ?case
  proof (intro conjI allI impI)
    show "length out = length (opr # oprs)" using IH out by simp
    show "length (r # rs) \<le> length (opr # oprs)" using IH by simp
  next
    fix i assume "i < length (opr # oprs)"
    then show "resp_Op (out ! i) = resp_Op ((opr # oprs) ! i)"
      using IH out by (cases i) (auto split: option.splits)
  next
    fix i assume "i < length (r # rs)"
    then show "\<exists>res. (r # rs) ! i = ResponsePut res \<and>
        resp_Value (out ! i) =
          Some (case PrevKv res of None \<Rightarrow> 1 | Some prev \<Rightarrow> kv_Version prev + 1)"
      using IH out r by (cases i) (auto simp: etcdVersionZero_def split: option.splits)
  qed
qed

lemma watchables_notify: "watchables (notifyCacheUpdate c) = watchables c"
  by (simp add: notifyCacheUpdate_def)

lemma watchables_deleteCache: "watchables (deleteCache key c) = watchables c"
  by (simp add: deleteCache_def watchables_notify split: option.splits)

lemma watchables_mergeCache: "watchables (mergeCache key v c) = watchables c"
  by (simp add: mergeCache_def watchables_notify split: option.splits)

lemma deferred_simps:
  "deferred TimeoutCancel panicked out = out"
  "deferred NilFunc panicked out = (panicked, snd out)"
  by (simp_all add: deferred_def)

lemma exOpts_simps:
  "Prefix exOpts = ''/p/''" "EnableFastGets exOpts = False" "MaxRetries exOpts = 2"
  "client_context exOpts = TimeoutCancel" "ApplyPrefix exOpts k = ''/p/'' @ k"
  "0 < sint (RequestTimeout exOpts)"
  by (simp_all add: exOpts_def client_context_def ApplyPrefix_def)

lemma exOptsNoTimeout_simps:
  "Prefix exOptsNoTimeout = ''/p/''" "EnableFastGets exOptsNoTimeout = False"
  "MaxRetries exOptsNoTimeout = 2"
  "client_context exOptsNoTimeout = NilFunc" "ApplyPrefix exOptsNoTimeout k = ''/p/'' @ k"
  "\<not> 0 < sint (RequestTimeout exOptsNoTimeout)"
  by (simp_all add: exOptsNoTimeout_def exOpts_def client_context_def ApplyPrefix_def
      noopCancel_def)

lemma get_result:
  "get tr opts key c = ((nv, err), c') \<Longrightarrow>
   watchables c' = watchables c \<and>
   (err \<noteq> None \<longrightarrow> nv = None \<and>
      (err = Some ErrNotFound \<or> err = Some RuntimePanic \<or> (\<exists>m. err = Some (TransportError m))))"
  by (auto simp: get_def deferred_def Let_def getCache_def watchables_deleteCache
      watchables_mergeCache
      split: CancelFunc.splits prod.splits sum.splits option.splits if_splits list.splits)

lemma fn_result:
  assumes "getFromKVStore_fn tr opts key s = (r, ((nv, err), c'))"
    and "watchables (snd s) = watchables c"
  shows "watchables c' = watchables c \<and>
    r = (if err = Some ErrNotFound then Some (NonRetryableError ErrNotFound) else err) \<and>
    (err \<noteq> None \<longrightarrow> nv = None \<and>
       (err = Some ErrNotFound \<or> err = Some RuntimePanic \<or> (\<exists>m. err = Some (TransportError m))))"
proof -
  from assms(1) have g: "get tr opts key (snd s) = ((nv, err), c')"
    and r: "r = (if err = Some ErrNotFound then Some (NonRetryableError ErrNotFound) else err)"
    by (auto simp: getFromKVStore_fn_def split: prod.splits)
  from get_result [OF g] assms(2) r show ?thesis by simp
qed

lemma Attempt_result:
  "Attempt n (getFromKVStore_fn tr opts key) s = (r, ((nv, err), c')) \<Longrightarrow>
   watchables (snd s) = watchables c \<Longrightarrow>
   watchables c' = watchables c \<and>
   r = (if err = Some ErrNotFound then Some (NonRetryableError ErrNotFound) else err) \<and>
   (err \<noteq> None \<longrightarrow> nv = None \<and>
      (err = Some ErrNotFound \<or> err = Some RuntimePanic \<or> (\<exists>m. err = Some (TransportError m))))"
proof (induction n arbitrary: s)
  case 0
  then show ?case by (simp add: fn_result)
next
  case (Suc n)
  obtain r1 nv1 err1 c1 where step: "getFromKVStore_fn tr opts key s = (r1, ((nv1, err1), c1))"
    by (metis surj_pair)
  note o1 = fn_result [OF step Suc.prems(2)]
  show ?case
  proof (cases r1)
    case None
    with Suc.prems(1) step o1 show ?thesis by (auto split: if_splits)
  next
    case (Some e)
    show ?thesis
    proof (cases "IsNonRetryableError e \<or> e = RuntimePanic")
      case True
      with Suc.prems(1) step Some o1 show ?thesis by auto
    next
      case False
      with Suc.prems(1) step Some
      have "Attempt n (getFromKVStore_fn tr opts key) ((nv1, err1), c1) = (r, ((nv, err), c'))"
        by simp
      moreover from o1 have "watchables (snd ((nv1, err1), c1)) = watchables c" by simp
      ultimately show ?thesis by (rule Suc.IH)
    qed
  qed
qed

lemma miss_not_retried:
  assumes "snd (fst (get tr opts key c)) = Some ErrNotFound"
  shows "getFromKVStore tr opts key c = ((None, None), snd (get tr opts key c))"
proof -
  obtain nv c' where g: "get tr opts key c = ((nv, Some ErrNotFound), c')"
    using assms by (metis prod.collapse)
  from get_result [OF g] have nv: "nv = None" by simp
  have fn: "getFromKVStore_fn tr opts key ((None, None), c)
              = (Some (NonRetryableError ErrNotFound), ((None, Some ErrNotFound), c'))"
    by (simp add: getFromKVStore_fn_def g nv)
  have "Attempt n (getFromKVStore_fn tr opts key) ((None, None), c)
          = (Some (NonRetryableError ErrNotFound), ((None, Some ErrNotFound), c'))" for n
    by (cases n) (simp_all add: fn)
  then show ?thesis by (simp add: getFromKVStore_def g)
qed

lemma miss_attempt:
  "Attempt (MaxRetries exOpts) (getFromKVStore_fn getMiss exOpts ''/p/k'') ((None, None), exClient)
     = (Some (NonRetryableError ErrNotFound),
        ((None, Some ErrNotFound),
         exClient\<lparr>kv := 1, cacheValues := Map.empty, cacheUpdatedCh := 1\<rparr>))"
proof -
  have t: "0 < sint (RequestTimeout exOpts)" by (simp add: exOpts_def)
  have g: "get getMiss exOpts ''/p/k'' exClient
      = ((None, Some ErrNotFound),
         exClient\<lparr>kv := 1, cacheValues := Map.empty, cacheUpdatedCh := 1\<rparr>)"
    by (simp add: get_def exOpts_simps deferred_simps getMiss_def scripted_def exClient_def
        deleteCache_def notifyCacheUpdate_def)
  show ?thesis
    by (simp add: exOpts_simps numeral_2_eq_2 getFromKVStore_fn_def g)
qed

lemma down_attempt:
  "Attempt (MaxRetries exOpts) (getFromKVStore_fn down exOpts ''/p/x'') ((None, None), exClient)
     = (Some (TransportError ''unavailable''),
        ((None, Some (TransportError ''unavailable'')),
         exClient\<lparr>kv := 3, etcdGetError := 3\<rparr>))"
proof -
  have t: "0 < sint (RequestTimeout exOpts)" by (simp add: exOpts_def)
  have g: "get down exOpts ''/p/x'' (exClient\<lparr>kv := n, etcdGetError := n\<rparr>)
      = ((None, Some (TransportError ''unavailable'')),
         exClient\<lparr>kv := Suc n, etcdGetError := Suc n\<rparr>)" for n
    by (simp add: get_def exOpts_simps deferred_simps down_def scripted_def exClient_def
        getCache_def unavailable_def)
  have e: "exClient = exClient\<lparr>kv := 0, etcdGetError := 0\<rparr>"
    by (simp add: exClient_def)
  have "Attempt (Suc (Suc 0)) (getFromKVStore_fn down exOpts ''/p/x'')
          ((None, None), exClient\<lparr>kv := 0, etcdGetError := 0\<rparr>)
     = (Some (TransportError ''unavailable''),
        ((None, Some (TransportError ''unavailable'')),
         exClient\<lparr>kv := Suc (Suc (Suc 0)), etcdGetError := Suc (Suc (Suc 0))\<rparr>))"
    by (simp add: getFromKVStore_fn_def g)
  then show ?thesis
    by (simp add: e [symmetric] exOpts_simps numeral_2_eq_2 numeral_3_eq_3)
qed

lemma processConditions_shape:
  "processConditions opts conditions = Inr cmps \<Longrightarrow>
   length cmps = length conditions \<and>
   (\<forall>i < length conditions.
      cmps ! i = Compare (CmpVersion (ApplyPrefix opts (cond_Key (conditions ! i)))) ''=''
                   (cond_Value (conditions ! i)))"
proof (induction conditions arbitrary: cmps)
  case Nil
  then show ?case by simp
next
  case (Cons condition conditions)
  from Cons.prems obtain cmp rest where
    cmp: "processCondition opts condition = Inr cmp" and
    rest: "processConditions opts conditions = Inr rest" and
    cmps: "cmps = cmp # rest"
    by (auto split: sum.splits)
  from cmp have "cmp = Compare (CmpVersion (ApplyPrefix opts (cond_Key condition))) ''=''
                   (cond_Value condition)"
    by (auto simp: processCondition_def Let_def CompareEqual_String_def
        split: TargetType.splits CompareType.splits)
  with Cons.IH [OF rest] cmps show ?case
    by (auto simp: nth_Cons split: nat.splits)
qed

lemma processOps_requests:
  "processOps opts marshal ops = Inr (etcdOps, opResponses) \<Longrightarrow>
   length etcdOps = length ops \<and>
   (\<forall>i < length ops. \<exists>key msg val.
      ops ! i = SetOp key msg \<and> marshal msg = Inr val \<and>
      etcdOps ! i = OpPut (ApplyPrefix opts key) val [WithPrevKV])"
proof (induction ops arbitrary: etcdOps opResponses)
  case Nil
  then show ?case by simp
next
  case (Cons op ops)
  from Cons.prems obtain etcdOp rest restResponses where
    op: "processOp opts marshal op = Inr etcdOp" and
    rest: "processOps opts marshal ops = Inr (rest, restResponses)" and
    etcdOps: "etcdOps = etcdOp # rest"
    by (auto split: sum.splits)
  from op obtain key msg val where "op = SetOp key msg" "marshal msg = Inr val"
    "etcdOp = OpPut (ApplyPrefix opts key) val [WithPrevKV]"
    by (cases op) (auto simp: processOp_def split: sum.splits)
  with Cons.IH [OF rest] etcdOps show ?case
    by (auto simp: nth_Cons split: nat.splits)
qed

lemma setResponses_rest:
  "setResponses rs oprs = Inr out \<Longrightarrow>
   \<forall>i. length rs \<le> i \<and> i < length oprs \<longrightarrow> out ! i = oprs ! i"
proof (induction rs oprs arbitrary: out rule: setResponses.induct)
  case (1 opResponses)
  then show ?case by simp
next
  case (2 r rs)
  then show ?case by simp
next
  case (3 r rs opr oprs)
  show ?case
  proof (intro allI impI)
    fix i assume i: "length (r # rs) \<le> i \<and> i < length (opr # oprs)"
    then obtain j where j: "i = Suc j" by (cases i) auto
    from "3.prems" obtain rest first where rest: "setResponses rs oprs = Inr rest"
      and out: "out = first # rest"
      by (auto split: OpType.splits ResponseOp.splits sum.splits)
    have "\<forall>i. length rs \<le> i \<and> i < length oprs \<longrightarrow> rest ! i = oprs ! i"
    proof (cases "Op_Type (resp_Op opr)")
      case OpSet
      with "3.prems" rest obtain res where "r = ResponsePut res"
        by (auto split: ResponseOp.splits)
      from "3.IH"(1) [OF OpSet this rest] show ?thesis .
    next
      case OpUnknown
      from "3.IH"(2) [OF OpUnknown rest] show ?thesis .
    qed
    with i j out show "out ! i = (opr # oprs) ! i" by simp
  qed
qed

lemma historyLoop_step:
  "sint from < sint version \<Longrightarrow>
   historyLoop tr key newKey from to version modRev res ts =
     (case kvGet tr newKey [WithRev (modRev - 1)] ts of
           (Inl err, ts') \<Rightarrow> Some (Inl (TransportError err), ts')
         | (Inr r, ts') \<Rightarrow>
             if Count r = 0 then Some (Inl (CouldNotFindVersion (version - 1) key), ts')
             else (case Kvs r of
                     [] \<Rightarrow> Some (Inl RuntimePanic, ts')
                   | v # _ \<Rightarrow>
                       if sint (kv_Version v) < sint to then
                         (case storeAt res (kv_Version v - from)
                                 (Some (newValue (kv_Value v) (kv_Version v) (kv_ModRevision v))) of
                            Inl e \<Rightarrow> Some (Inl e, ts')
                          | Inr res' \<Rightarrow>
                              historyLoop tr key newKey from to (kv_Version v) (kv_ModRevision v)
                                res' ts')
                       else historyLoop tr key newKey from to (kv_Version v) (kv_ModRevision v)
                              res ts'))"
  by (subst historyLoop.simps) simp

lemma historyLoop_done:
  "\<not> sint from < sint version \<Longrightarrow>
   historyLoop tr key newKey from to version modRev res ts = Some (Inr res, ts)"
  by (subst historyLoop.simps) simp

lemma five_log:
  "kv fiveWrites =
     [\<lparr>kv_Key = ''/p/k'', kv_Value = ''v1'', kv_Version = 1, kv_ModRevision = 2\<rparr>,
      \<lparr>kv_Key = ''/p/k'', kv_Value = ''v2'', kv_Version = 2, kv_ModRevision = 3\<rparr>,
      \<lparr>kv_Key = ''/p/k'', kv_Value = ''v3'', kv_Version = 3, kv_ModRevision = 4\<rparr>,
      \<lparr>kv_Key = ''/p/k'', kv_Value = ''v4'', kv_Version = 4, kv_ModRevision = 5\<rparr>,
      \<lparr>kv_Key = ''/p/k'', kv_Value = ''v5'', kv_Version = 5, kv_ModRevision = 6\<rparr>]"
  by (simp add: fiveWrites_def writeAll_def Set_def exOpts_simps deferred_simps snd_deferred
      putStore_def storePut_def latestAt_def emptyClient_def Let_def)

lemma five_reads:
  "kvGet putStore ''/p/k'' [] (kv fiveWrites) =
     (Inr \<lparr>Count = 1, Kvs = [\<lparr>kv_Key = ''/p/k'', kv_Value = ''v5'', kv_Version = 5,
                               kv_ModRevision = 6\<rparr>]\<rparr>, kv fiveWrites)"
  "kvGet putStore ''/p/k'' [WithRev 5] (kv fiveWrites) =
     (Inr \<lparr>Count = 1, Kvs = [\<lparr>kv_Key = ''/p/k'', kv_Value = ''v4'', kv_Version = 4,
                               kv_ModRevision = 5\<rparr>]\<rparr>, kv fiveWrites)"
  "kvGet putStore ''/p/k'' [WithRev 4] (kv fiveWrites) =
     (Inr \<lparr>Count = 1, Kvs = [\<lparr>kv_Key = ''/p/k'', kv_Value = ''v3'', kv_Version = 3,
                               kv_ModRevision = 4\<rparr>]\<rparr>, kv fiveWrites)"
  "kvGet putStore ''/p/k'' [WithRev 3] (kv fiveWrites) =
     (Inr \<lparr>Count = 1, Kvs = [\<lparr>kv_Key = ''/p/k'', kv_Value = ''v2'', kv_Version = 2,
                               kv_ModRevision = 3\<rparr>]\<rparr>, kv fiveWrites)"
  "kvGet putStore ''/p/k'' [WithRev 2] (kv fiveWrites) =
     (Inr \<lparr>Count = 1, Kvs = [\<lparr>kv_Key = ''/p/k'', kv_Value = ''v1'', kv_Version = 1,
                               kv_ModRevision = 2\<rparr>]\<rparr>, kv fiveWrites)"
  "kvGet putStore ''/p/k'' [WithRev 1] (kv fiveWrites) = (Inr \<lparr>Count = 0, Kvs = []\<rparr>, kv fiveWrites)"
  by (simp_all add: five_log putStore_def storeGet_def latestAt_def)

lemma History_five_from_0:
  "History putStore exOpts ''k'' 0 3 fiveWrites
     = Some (Inl (CouldNotFindVersion 0 ''k''), fiveWrites)"
proof -
  have loop: "historyLoop putStore ''k'' ''/p/k'' 0 3 5 6 [None, None, None] (kv fiveWrites)
      = Some (Inl (CouldNotFindVersion 0 ''k''), kv fiveWrites)"
    by (simp add: five_reads historyLoop_step historyLoop_done storeAt_def)
  show ?thesis
    by (simp add: History_def exOpts_simps deferred_simps five_reads loop Let_def
        numeral_3_eq_3)
qed

subsection \<open>Ordering of values\<close>

text \<open>
  C1. \<^verbatim>\<open>a.IsNewer(b)\<close> compares the two revisions whenever \<open>b\<close> carries a revision, that
  is whenever \<open>b\<close> is a value of this package as the receiver \<open>a\<close> is: then it holds
  exactly when the revision of \<open>a\<close> is greater, whatever the versions are. Only when
  \<open>b\<close> is a value without a revision does it compare the versions.
\<close>

theorem IsNewer_revision_else_version:
  "IsNewer a (EtcdValue b) = (sint (Rev b) < sint (Rev a)) \<and>
   IsNewer a (ForeignValue ver) = (sint ver < sint (Version a))"
  by (simp add: word_sless_alt)

subsection \<open>The cache\<close>

text \<open>
  C10. A cache mutation signals the one-slot channel only when the map changed:
  \<^verbatim>\<open>deleteCache\<close> of a key that the map does not hold leaves the whole client state as
  it was (map and channel), and so does \<^verbatim>\<open>mergeCache\<close> of a value that is not newer
  than the entry the map holds; and whenever either of them changes the channel, the
  map is a different map afterwards.
\<close>

theorem cache_signal_only_on_change:
  "(cacheValues c key = None \<longrightarrow> deleteCache key c = c) \<and>
   (cacheValues c key = Some cur \<and> \<not> IsNewer v (EtcdValue cur) \<longrightarrow> mergeCache key v c = c) \<and>
   (cacheUpdatedCh (deleteCache key c) \<noteq> cacheUpdatedCh c
      \<longrightarrow> cacheValues (deleteCache key c) \<noteq> cacheValues c) \<and>
   (cacheUpdatedCh (mergeCache key v c) \<noteq> cacheUpdatedCh c
      \<longrightarrow> cacheValues (mergeCache key v c) \<noteq> cacheValues c)"
proof (intro conjI impI)
  assume "cacheValues c key = None"
  then show "deleteCache key c = c" by (simp add: deleteCache_def)
next
  assume "cacheValues c key = Some cur \<and> \<not> IsNewer v (EtcdValue cur)"
  then show "mergeCache key v c = c" by (simp add: mergeCache_def)
next
  assume ch: "cacheUpdatedCh (deleteCache key c) \<noteq> cacheUpdatedCh c"
  then obtain old where old: "cacheValues c key = Some old"
    by (cases "cacheValues c key") (auto simp: deleteCache_def)
  have "cacheValues (deleteCache key c) key = None"
    by (simp add: cacheValues_deleteCache)
  with old show "cacheValues (deleteCache key c) \<noteq> cacheValues c" by auto
next
  assume ch: "cacheUpdatedCh (mergeCache key v c) \<noteq> cacheUpdatedCh c"
  show "cacheValues (mergeCache key v c) \<noteq> cacheValues c"
  proof (cases "cacheValues c key")
    case None
    then have "cacheValues (mergeCache key v c) key = Some v"
      by (simp add: cacheValues_mergeCache)
    with None show ?thesis by auto
  next
    case (Some cur)
    with ch have newer: "IsNewer v (EtcdValue cur)"
      by (auto simp: mergeCache_def split: if_splits)
    then have "v \<noteq> cur" by (auto simp: word_sless_alt)
    moreover from Some newer have "cacheValues (mergeCache key v c) key = Some v"
      by (simp add: cacheValues_mergeCache word_sless_alt)
    ultimately show ?thesis using Some by auto
  qed
qed

theorem cache_signal_only_on_change_witness:
  "cacheValues exClient ''/p/x'' = None \<and> deleteCache ''/p/x'' exClient = exClient \<and>
   cacheValues exClient ''/p/k'' = Some (newValue ''a'' 2 7) \<and>
   \<not> IsNewer (newValue ''b'' 3 7) (EtcdValue (newValue ''a'' 2 7)) \<and>
   mergeCache ''/p/k'' (newValue ''b'' 3 7) exClient = exClient \<and>
   cacheUpdatedCh (deleteCache ''/p/k'' exClient) \<noteq> cacheUpdatedCh exClient \<and>
   cacheValues (deleteCache ''/p/k'' exClient) \<noteq> cacheValues exClient \<and>
   cacheUpdatedCh (mergeCache ''/p/k'' (newValue ''b'' 3 8) exClient) \<noteq> cacheUpdatedCh exClient \<and>
   cacheValues (mergeCache ''/p/k'' (newValue ''b'' 3 8) exClient) \<noteq> cacheValues exClient"
proof -
  have absent: "cacheValues exClient ''/p/x'' = None"
    by (simp add: exClient_def)
  have held: "cacheValues exClient ''/p/k'' = Some (newValue ''a'' 2 7)"
    by (simp add: exClient_def)
  have older: "\<not> IsNewer (newValue ''b'' 3 7) (EtcdValue (newValue ''a'' 2 7))"
    by (simp add: newValue_def)
  have sig1: "cacheUpdatedCh (deleteCache ''/p/k'' exClient) \<noteq> cacheUpdatedCh exClient"
    by (simp add: exClient_def deleteCache_def notifyCacheUpdate_def)
  have sig2: "cacheUpdatedCh (mergeCache ''/p/k'' (newValue ''b'' 3 8) exClient)
                \<noteq> cacheUpdatedCh exClient"
    by (simp add: exClient_def mergeCache_def notifyCacheUpdate_def newValue_def)
  show ?thesis
    using absent held older sig1 sig2
      cache_signal_only_on_change [of exClient "''/p/x''" "newValue ''a'' 2 7" "newValue ''b'' 3 7"]
      cache_signal_only_on_change [of exClient "''/p/k''" "newValue ''a'' 2 7" "newValue ''b'' 3 7"]
      cache_signal_only_on_change [of exClient "''/p/k''" "newValue ''a'' 2 7" "newValue ''b'' 3 8"]
    by blast
qed

subsection \<open>Point reads\<close>

text \<open>
  C2. Get applies the prefix and reads the fully-qualified key. When the read succeeds
  with a non-zero count and a first KV, the Value built from that KV is merged into the
  cache by the newer-only rule (stored when the cache holds no entry for the key or an
  entry it is newer than) and, with a positive request timeout, returned with no error.
  When the read succeeds with count zero, the cache holds no entry for the key
  afterwards and, with a positive request timeout, Get fails with NotFound. When the
  read fails, the cache is as it was and, with a positive request timeout, Get returns
  the cached Value with no error if the cache holds one for the key, the transport's
  error otherwise. With a request timeout that is not positive (0 stands for no
  timeout) the code does not return any of these: the deferred cancel is the nil
  \<^verbatim>\<open>noopCancel\<close>, and Get panics on return, after its body has run.
\<close>

theorem Get_contract:
  "(\<not> 0 < sint (RequestTimeout opts) \<longrightarrow> fst (Get tr opts k c) = (None, Some RuntimePanic)) \<and>
   (kvGet tr (ApplyPrefix opts k) (if EnableFastGets opts then [WithSerializable] else []) (kv c)
      = (Inr r, ts) \<and> Count r \<noteq> 0 \<and> Kvs r = kv0 # kvs \<longrightarrow>
    (let v = newValue (kv_Value kv0) (kv_Version kv0) (kv_ModRevision kv0);
         c' = snd (Get tr opts k c)
     in (0 < sint (RequestTimeout opts) \<longrightarrow> fst (Get tr opts k c) = (Some v, None)) \<and>
        c' = mergeCache (ApplyPrefix opts k) v (c\<lparr>kv := ts\<rparr>) \<and>
        cacheValues c' =
          (case cacheValues c (ApplyPrefix opts k) of
             None \<Rightarrow> (cacheValues c)(ApplyPrefix opts k \<mapsto> v)
           | Some cur \<Rightarrow>
               if IsNewer v (EtcdValue cur) then (cacheValues c)(ApplyPrefix opts k \<mapsto> v)
               else cacheValues c))) \<and>
   (kvGet tr (ApplyPrefix opts k) (if EnableFastGets opts then [WithSerializable] else []) (kv c)
      = (Inr r, ts) \<and> Count r = 0 \<longrightarrow>
    (0 < sint (RequestTimeout opts) \<longrightarrow> fst (Get tr opts k c) = (None, Some ErrNotFound)) \<and>
    snd (Get tr opts k c) = deleteCache (ApplyPrefix opts k) (c\<lparr>kv := ts\<rparr>) \<and>
    cacheValues (snd (Get tr opts k c)) = (cacheValues c)(ApplyPrefix opts k := None)) \<and>
   (kvGet tr (ApplyPrefix opts k) (if EnableFastGets opts then [WithSerializable] else []) (kv c)
      = (Inl err, ts) \<longrightarrow>
    (0 < sint (RequestTimeout opts) \<longrightarrow>
       fst (Get tr opts k c) =
         (case cacheValues c (ApplyPrefix opts k) of
            Some cachedV \<Rightarrow> (Some cachedV, None)
          | None \<Rightarrow> (None, Some (TransportError err)))) \<and>
    cacheValues (snd (Get tr opts k c)) = cacheValues c)"
proof -
  let ?key = "ApplyPrefix opts k"
  let ?read = "kvGet tr ?key (if EnableFastGets opts then [WithSerializable] else []) (kv c)"
  have panic: "fst (Get tr opts k c) = (None, Some RuntimePanic)"
    if "\<not> 0 < sint (RequestTimeout opts)"
    using that by (simp add: Get_def get_def deferred_nil)
  have hit: "(0 < sint (RequestTimeout opts) \<longrightarrow>
        fst (Get tr opts k c)
          = (Some (newValue (kv_Value kv0) (kv_Version kv0) (kv_ModRevision kv0)), None)) \<and>
      snd (Get tr opts k c)
        = mergeCache ?key (newValue (kv_Value kv0) (kv_Version kv0) (kv_ModRevision kv0))
            (c\<lparr>kv := ts\<rparr>) \<and>
      cacheValues (snd (Get tr opts k c)) =
        (case cacheValues c ?key of
           None \<Rightarrow> (cacheValues c)(?key \<mapsto>
                     newValue (kv_Value kv0) (kv_Version kv0) (kv_ModRevision kv0))
         | Some cur \<Rightarrow>
             if IsNewer (newValue (kv_Value kv0) (kv_Version kv0) (kv_ModRevision kv0))
                  (EtcdValue cur)
             then (cacheValues c)(?key \<mapsto>
                     newValue (kv_Value kv0) (kv_Version kv0) (kv_ModRevision kv0))
             else cacheValues c)"
    if "?read = (Inr r, ts) \<and> Count r \<noteq> 0 \<and> Kvs r = kv0 # kvs"
    using that
    by (auto simp: Get_def get_def Let_def snd_deferred deferred_timeout cacheValues_mergeCache
        word_sless_alt split: option.splits)
  have miss: "(0 < sint (RequestTimeout opts) \<longrightarrow>
        fst (Get tr opts k c) = (None, Some ErrNotFound)) \<and>
      snd (Get tr opts k c) = deleteCache ?key (c\<lparr>kv := ts\<rparr>) \<and>
      cacheValues (snd (Get tr opts k c)) = (cacheValues c)(?key := None)"
    if "?read = (Inr r, ts) \<and> Count r = 0"
    using that
    by (auto simp: Get_def get_def Let_def snd_deferred deferred_timeout cacheValues_deleteCache)
  have err: "(0 < sint (RequestTimeout opts) \<longrightarrow>
       fst (Get tr opts k c) =
         (case cacheValues c ?key of
            Some cachedV \<Rightarrow> (Some cachedV, None)
          | None \<Rightarrow> (None, Some (TransportError err)))) \<and>
      cacheValues (snd (Get tr opts k c)) = cacheValues c"
    if "?read = (Inl err, ts)"
    using that
    by (auto simp: Get_def get_def Let_def snd_deferred deferred_timeout getCache_def
        split: option.splits)
  from panic hit miss err show ?thesis
    unfolding Let_def by blast
qed

theorem Get_contract_witness:
  "fst (Get getHit exOpts ''k'' exClient) = (Some (newValue ''b'' 3 9), None) \<and>
   cacheValues (snd (Get getHit exOpts ''k'' exClient)) ''/p/k'' = Some (newValue ''b'' 3 9) \<and>
   fst (Get getMiss exOpts ''k'' exClient) = (None, Some ErrNotFound) \<and>
   cacheValues (snd (Get getMiss exOpts ''k'' exClient)) ''/p/k'' = None \<and>
   fst (Get down exOpts ''k'' exClient) = (Some (newValue ''a'' 2 7), None) \<and>
   fst (Get down exOpts ''x'' exClient) = (None, Some (TransportError ''unavailable'')) \<and>
   RequestTimeout exOptsNoTimeout = 0 \<and>
   fst (Get getHit exOptsNoTimeout ''k'' exClient) = (None, Some RuntimePanic) \<and>
   cacheValues (snd (Get getHit exOptsNoTimeout ''k'' exClient)) ''/p/k''
     = Some (newValue ''b'' 3 9)"
proof -
  have key: "ApplyPrefix exOpts ''k'' = ''/p/k''" "ApplyPrefix exOpts ''x'' = ''/p/x''"
    "ApplyPrefix exOptsNoTimeout ''k'' = ''/p/k''"
    by (simp_all add: exOpts_simps exOptsNoTimeout_simps)
  have cache: "cacheValues exClient ''/p/k'' = Some (newValue ''a'' 2 7)"
    "cacheValues exClient ''/p/x'' = None"
    by (simp_all add: exClient_def)
  have hit: "kvGet getHit (ApplyPrefix opts ''k'')
               (if EnableFastGets opts then [WithSerializable] else []) (kv exClient)
             = (Inr \<lparr>Count = 1, Kvs = [exKV ''b'' 3 9]\<rparr>, 1) \<and>
             Count \<lparr>Count = 1, Kvs = [exKV ''b'' 3 9]\<rparr> \<noteq> 0 \<and>
             Kvs \<lparr>Count = 1, Kvs = [exKV ''b'' 3 9]\<rparr> = exKV ''b'' 3 9 # []" for opts
    by (simp add: getHit_def scripted_def exClient_def)
  have miss: "kvGet getMiss (ApplyPrefix exOpts ''k'')
               (if EnableFastGets exOpts then [WithSerializable] else []) (kv exClient)
             = (Inr \<lparr>Count = 0, Kvs = []\<rparr>, 1) \<and> Count \<lparr>Count = 0, Kvs = []\<rparr> = 0"
    by (simp add: getMiss_def scripted_def exClient_def)
  have err: "kvGet down (ApplyPrefix exOpts k)
               (if EnableFastGets exOpts then [WithSerializable] else []) (kv exClient)
             = (Inl ''unavailable'', 1)" for k
    by (simp add: down_def scripted_def exClient_def unavailable_def)
  have newer: "IsNewer (newValue ''b'' 3 9) (EtcdValue (newValue ''a'' 2 7))"
    by (simp add: newValue_def)
  have kvf: "kv_Value (exKV ''b'' 3 9) = ''b''" "kv_Version (exKV ''b'' 3 9) = 3"
    "kv_ModRevision (exKV ''b'' 3 9) = 9"
    by (simp_all add: exKV_def)
  have t: "0 < sint (RequestTimeout exOpts)" by (simp add: exOpts_simps)
  have nt: "\<not> 0 < sint (RequestTimeout exOptsNoTimeout)" by (simp add: exOptsNoTimeout_simps)
  have z: "RequestTimeout exOptsNoTimeout = 0" by (simp add: exOptsNoTimeout_def)
  from Get_contract [where opts = exOpts, THEN conjunct2, THEN conjunct1, rule_format, OF hit] t
  have a: "fst (Get getHit exOpts ''k'' exClient) = (Some (newValue ''b'' 3 9), None)"
    and b: "cacheValues (snd (Get getHit exOpts ''k'' exClient)) ''/p/k'' = Some (newValue ''b'' 3 9)"
    by (simp_all add: Let_def key cache newer kvf cacheValues_mergeCache newValue_def)
  from Get_contract [THEN conjunct2, THEN conjunct2, THEN conjunct1, rule_format, OF miss] t
  have c: "fst (Get getMiss exOpts ''k'' exClient) = (None, Some ErrNotFound)"
    and d: "cacheValues (snd (Get getMiss exOpts ''k'' exClient)) ''/p/k'' = None"
    by (simp_all add: key cacheValues_deleteCache)
  from Get_contract [THEN conjunct2, THEN conjunct2, THEN conjunct2, rule_format, OF err,
      of "''k''"] t
  have e: "fst (Get down exOpts ''k'' exClient) = (Some (newValue ''a'' 2 7), None)"
    by (simp add: key cache)
  from Get_contract [THEN conjunct2, THEN conjunct2, THEN conjunct2, rule_format, OF err,
      of "''x''"] t
  have f: "fst (Get down exOpts ''x'' exClient) = (None, Some (TransportError ''unavailable''))"
    by (simp add: key cache)
  from Get_contract [THEN conjunct1, rule_format, OF nt]
  have g: "fst (Get getHit exOptsNoTimeout ''k'' exClient) = (None, Some RuntimePanic)" .
  from Get_contract [where opts = exOptsNoTimeout, THEN conjunct2, THEN conjunct1, rule_format,
      OF hit]
  have h: "cacheValues (snd (Get getHit exOptsNoTimeout ''k'' exClient)) ''/p/k''
     = Some (newValue ''b'' 3 9)"
    by (simp add: Let_def key cache newer kvf cacheValues_mergeCache newValue_def)
  from a b c d e f g h z show ?thesis by simp
qed

subsection \<open>History\<close>

text \<open>
  C4. History fails with the invalid-version-range error exactly when its arguments
  violate \<open>0 \<le> from \<le> to\<close>: it returns that error, at once and with the client state
  untouched, when they do, and never returns it when they do not. With \<open>from = to\<close>
  (not negative) it returns the empty result and no error, and the client state,
  the transport's state included, is as it was: the store was not consulted.
\<close>

theorem History_argument_check:
  "(\<not> (0 \<le> sint from \<and> sint from \<le> sint to) \<longrightarrow>
      History tr opts k from to c = Some (Inl errInvalidHistoryVersion, c)) \<and>
   (0 \<le> sint from \<and> sint from \<le> sint to \<longrightarrow>
      (\<forall>c'. History tr opts k from to c \<noteq> Some (Inl errInvalidHistoryVersion, c'))) \<and>
   (0 \<le> sint from \<and> from = to \<longrightarrow> History tr opts k from to c = Some (Inr [], c))"
proof (intro conjI impI allI)
  assume "\<not> (0 \<le> sint from \<and> sint from \<le> sint to)"
  then show "History tr opts k from to c = Some (Inl errInvalidHistoryVersion, c)"
    by (auto simp: History_def)
next
  fix c'
  assume ok: "0 \<le> sint from \<and> sint from \<le> sint to"
  show "History tr opts k from to c \<noteq> Some (Inl errInvalidHistoryVersion, c')"
  proof
    assume h: "History tr opts k from to c = Some (Inl errInvalidHistoryVersion, c')"
    with ok show False
      by (auto simp: History_def Let_def deferred_def
          split: if_splits prod.splits sum.splits list.splits option.splits CancelFunc.splits
          dest: storeAt_error historyLoop_error)
  qed
next
  assume "0 \<le> sint from \<and> from = to"
  then show "History tr opts k from to c = Some (Inr [], c)"
    by (auto simp: History_def)
qed

theorem History_argument_check_witness:
  "History down exOpts ''k'' 5 2 exClient = Some (Inl errInvalidHistoryVersion, exClient) \<and>
   History down exOpts ''k'' (- 1) 2 exClient = Some (Inl errInvalidHistoryVersion, exClient) \<and>
   History down exOpts ''k'' 0 3 exClient \<noteq> Some (Inl errInvalidHistoryVersion, exClient\<lparr>kv := 1\<rparr>) \<and>
   History down exOpts ''k'' 4 4 exClient = Some (Inr [], exClient)"
proof -
  have a: "\<not> (0 \<le> sint (5 :: goint) \<and> sint (5 :: goint) \<le> sint (2 :: goint))" by simp
  have b: "\<not> (0 \<le> sint (- 1 :: goint) \<and> sint (- 1 :: goint) \<le> sint (2 :: goint))" by simp
  have c: "0 \<le> sint (0 :: goint) \<and> sint (0 :: goint) \<le> sint (3 :: goint)" by simp
  have d: "0 \<le> sint (4 :: goint) \<and> (4 :: goint) = 4" by simp
  show ?thesis
    using History_argument_check [THEN conjunct1, rule_format, OF a]
      History_argument_check [THEN conjunct1, rule_format, OF b]
      History_argument_check [THEN conjunct2, THEN conjunct1, rule_format, OF c]
      History_argument_check [THEN conjunct2, THEN conjunct2, rule_format, OF d]
    by blast
qed

text \<open>
  C5 (as stated, refuted). For a key written five times, \<^verbatim>\<open>History(k, 0, 3)\<close> does not
  return the Values at versions 1, 2 and 3: the walk back reaches version 1, which is
  still above \<open>from = 0\<close>, reads once more at the revision before the key's first
  write, finds nothing there and fails with "could not find version 0".
\<close>

theorem History_0_3_counterexample:
  "fst (Get putStore exOpts ''k'' fiveWrites) = (Some (newValue ''v5'' 5 6), None) \<and>
   History putStore exOpts ''k'' 0 3 fiveWrites
     = Some (Inl (CouldNotFindVersion 0 ''k''), fiveWrites) \<and>
   History putStore exOpts ''k'' 0 3 fiveWrites
     \<noteq> Some (Inr [Some (newValue ''v1'' 1 2), Some (newValue ''v2'' 2 3),
                   Some (newValue ''v3'' 3 4)], fiveWrites)"
proof -
  have latest: "fst (Get putStore exOpts ''k'' fiveWrites) = (Some (newValue ''v5'' 5 6), None)"
    by (simp add: Get_def get_def exOpts_simps deferred_simps five_reads Let_def)
  from latest History_five_from_0 show ?thesis by simp
qed

text \<open>
  C5 (amended). For a key that has been written five times (latest version 5), on a
  client with a positive request timeout, \<^verbatim>\<open>History(k, 1, 4)\<close> returns the Values at
  versions 1, 2 and 3 in ascending version order. "Written five times" is what the
  transport answers: the latest read returns the KV of version 5, and the read at the
  revision before the KV of version \<open>i + 1\<close> returns the KV of version \<open>i\<close>, for
  \<open>i\<close> from 4 down to 1; the Values are built from those KVs.
\<close>

theorem History_five_half_open:
  assumes timeout: "0 < sint (RequestTimeout opts)"
    and read5: "kvGet tr (ApplyPrefix opts k) [] (kv c) = (Inr r5, t5) \<and>
                Count r5 \<noteq> 0 \<and> Kvs r5 = kv5 # more5 \<and> kv_Version kv5 = 5"
    and read4: "kvGet tr (ApplyPrefix opts k) [WithRev (kv_ModRevision kv5 - 1)] t5 = (Inr r4, t4) \<and>
                Count r4 \<noteq> 0 \<and> Kvs r4 = kv4 # more4 \<and> kv_Version kv4 = 4"
    and read3: "kvGet tr (ApplyPrefix opts k) [WithRev (kv_ModRevision kv4 - 1)] t4 = (Inr r3, t3) \<and>
                Count r3 \<noteq> 0 \<and> Kvs r3 = kv3 # more3 \<and> kv_Version kv3 = 3"
    and read2: "kvGet tr (ApplyPrefix opts k) [WithRev (kv_ModRevision kv3 - 1)] t3 = (Inr r2, t2) \<and>
                Count r2 \<noteq> 0 \<and> Kvs r2 = kv2 # more2 \<and> kv_Version kv2 = 2"
    and read1: "kvGet tr (ApplyPrefix opts k) [WithRev (kv_ModRevision kv2 - 1)] t2 = (Inr r1, t1) \<and>
                Count r1 \<noteq> 0 \<and> Kvs r1 = kv1 # more1 \<and> kv_Version kv1 = 1"
  shows "History tr opts k 1 4 c =
           Some (Inr [Some (newValue (kv_Value kv1) 1 (kv_ModRevision kv1)),
                      Some (newValue (kv_Value kv2) 2 (kv_ModRevision kv2)),
                      Some (newValue (kv_Value kv3) 3 (kv_ModRevision kv3))],
                 c\<lparr>kv := t1\<rparr>)"
proof -
  have loop: "historyLoop tr k (ApplyPrefix opts k) 1 4 5 (kv_ModRevision kv5)
                [None, None, None] t5
      = Some (Inr [Some (newValue (kv_Value kv1) 1 (kv_ModRevision kv1)),
                   Some (newValue (kv_Value kv2) 2 (kv_ModRevision kv2)),
                   Some (newValue (kv_Value kv3) 3 (kv_ModRevision kv3))], t1)"
    using read4 read3 read2 read1
    by (simp add: historyLoop_step historyLoop_done storeAt_def)
  from timeout read5 loop show ?thesis
    by (simp add: History_def deferred_timeout Let_def numeral_3_eq_3)
qed

theorem History_five_half_open_witness:
  "0 < sint (RequestTimeout exOpts) \<and>
   kv fiveWrites =
     [\<lparr>kv_Key = ''/p/k'', kv_Value = ''v1'', kv_Version = 1, kv_ModRevision = 2\<rparr>,
      \<lparr>kv_Key = ''/p/k'', kv_Value = ''v2'', kv_Version = 2, kv_ModRevision = 3\<rparr>,
      \<lparr>kv_Key = ''/p/k'', kv_Value = ''v3'', kv_Version = 3, kv_ModRevision = 4\<rparr>,
      \<lparr>kv_Key = ''/p/k'', kv_Value = ''v4'', kv_Version = 4, kv_ModRevision = 5\<rparr>,
      \<lparr>kv_Key = ''/p/k'', kv_Value = ''v5'', kv_Version = 5, kv_ModRevision = 6\<rparr>] \<and>
   History putStore exOpts ''k'' 1 4 fiveWrites =
     Some (Inr [Some (newValue ''v1'' 1 2), Some (newValue ''v2'' 2 3),
                Some (newValue ''v3'' 3 4)], fiveWrites)"
proof -
  have t: "0 < sint (RequestTimeout exOpts)" by (simp add: exOpts_simps)
  have key: "ApplyPrefix exOpts ''k'' = ''/p/k''" by (simp add: exOpts_simps)
  let ?e = "\<lambda>val ver revision.
              \<lparr>kv_Key = ''/p/k'', kv_Value = val, kv_Version = ver, kv_ModRevision = revision\<rparr>"
  let ?r = "\<lambda>e. \<lparr>Count = 1, Kvs = [e]\<rparr>"
  have r5: "kvGet putStore (ApplyPrefix exOpts ''k'') [] (kv fiveWrites)
              = (Inr (?r (?e ''v5'' 5 6)), kv fiveWrites) \<and>
            Count (?r (?e ''v5'' 5 6)) \<noteq> 0 \<and> Kvs (?r (?e ''v5'' 5 6)) = ?e ''v5'' 5 6 # [] \<and>
            kv_Version (?e ''v5'' 5 6) = 5"
    by (simp add: key five_reads)
  have r4: "kvGet putStore (ApplyPrefix exOpts ''k'') [WithRev (kv_ModRevision (?e ''v5'' 5 6) - 1)]
              (kv fiveWrites) = (Inr (?r (?e ''v4'' 4 5)), kv fiveWrites) \<and>
            Count (?r (?e ''v4'' 4 5)) \<noteq> 0 \<and> Kvs (?r (?e ''v4'' 4 5)) = ?e ''v4'' 4 5 # [] \<and>
            kv_Version (?e ''v4'' 4 5) = 4"
    by (simp add: key five_reads)
  have r3: "kvGet putStore (ApplyPrefix exOpts ''k'') [WithRev (kv_ModRevision (?e ''v4'' 4 5) - 1)]
              (kv fiveWrites) = (Inr (?r (?e ''v3'' 3 4)), kv fiveWrites) \<and>
            Count (?r (?e ''v3'' 3 4)) \<noteq> 0 \<and> Kvs (?r (?e ''v3'' 3 4)) = ?e ''v3'' 3 4 # [] \<and>
            kv_Version (?e ''v3'' 3 4) = 3"
    by (simp add: key five_reads)
  have r2: "kvGet putStore (ApplyPrefix exOpts ''k'') [WithRev (kv_ModRevision (?e ''v3'' 3 4) - 1)]
              (kv fiveWrites) = (Inr (?r (?e ''v2'' 2 3)), kv fiveWrites) \<and>
            Count (?r (?e ''v2'' 2 3)) \<noteq> 0 \<and> Kvs (?r (?e ''v2'' 2 3)) = ?e ''v2'' 2 3 # [] \<and>
            kv_Version (?e ''v2'' 2 3) = 2"
    by (simp add: key five_reads)
  have r1: "kvGet putStore (ApplyPrefix exOpts ''k'') [WithRev (kv_ModRevision (?e ''v2'' 2 3) - 1)]
              (kv fiveWrites) = (Inr (?r (?e ''v1'' 1 2)), kv fiveWrites) \<and>
            Count (?r (?e ''v1'' 1 2)) \<noteq> 0 \<and> Kvs (?r (?e ''v1'' 1 2)) = ?e ''v1'' 1 2 # [] \<and>
            kv_Version (?e ''v1'' 1 2) = 1"
    by (simp add: key five_reads)
  from History_five_half_open [OF t r5 r4 r3 r2 r1]
  have "History putStore exOpts ''k'' 1 4 fiveWrites =
     Some (Inr [Some (newValue ''v1'' 1 2), Some (newValue ''v2'' 2 3),
                Some (newValue ''v3'' 3 4)], fiveWrites)"
    by simp
  with t five_log show ?thesis by simp
qed

subsection \<open>Writes\<close>

text \<open>
  C6. CheckAndSet, once the message is serialized to the bytes \<open>b\<close>, issues one
  transaction: the comparison of the version of the fully-qualified key with the
  expected version \<open>v\<close>, and the put of \<open>b\<close> under that key; the transport's state
  afterwards is the one this single request leaves. With a positive request timeout it
  returns version 0 and the version-mismatch error when the comparison fails (the
  transaction did not succeed), and \<open>v + 1\<close> and no error when the transaction
  succeeds. With a request timeout that is not positive it returns neither: the
  deferred cancel is the nil \<^verbatim>\<open>noopCancel\<close>, and CheckAndSet panics on return, whatever
  the message and the transport's answer are.
\<close>

theorem CheckAndSet_contract:
  "(\<not> 0 < sint (RequestTimeout opts) \<longrightarrow>
      fst (CheckAndSet tr opts marshal k v m c) = (0, Some RuntimePanic)) \<and>
   (marshal m = Inr b \<longrightarrow>
      kv (snd (CheckAndSet tr opts marshal k v m c)) =
        snd (kvTxn tr [Compare (CmpVersion (ApplyPrefix opts k)) ''='' v]
               [OpPut (ApplyPrefix opts k) b []] (kv c)) \<and>
      (0 < sint (RequestTimeout opts) \<longrightarrow>
         (\<forall>r. fst (kvTxn tr [Compare (CmpVersion (ApplyPrefix opts k)) ''='' v]
                     [OpPut (ApplyPrefix opts k) b []] (kv c)) = Inr r \<and> \<not> Succeeded r \<longrightarrow>
              fst (CheckAndSet tr opts marshal k v m c) = (0, Some ErrVersionMismatch)) \<and>
         (\<forall>r. fst (kvTxn tr [Compare (CmpVersion (ApplyPrefix opts k)) ''='' v]
                     [OpPut (ApplyPrefix opts k) b []] (kv c)) = Inr r \<and> Succeeded r \<longrightarrow>
              fst (CheckAndSet tr opts marshal k v m c) = (v + 1, None))))"
proof -
  let ?txn = "kvTxn tr [Compare (CmpVersion (ApplyPrefix opts k)) ''='' v]
                [OpPut (ApplyPrefix opts k) b []] (kv c)"
  have panic: "fst (CheckAndSet tr opts marshal k v m c) = (0, Some RuntimePanic)"
    if "\<not> 0 < sint (RequestTimeout opts)"
    using that by (simp add: CheckAndSet_def deferred_nil)
  have one: "kv (snd (CheckAndSet tr opts marshal k v m c)) = snd ?txn" if "marshal m = Inr b"
    using that
    by (auto simp: CheckAndSet_def Let_def CompareEqual_String_def snd_deferred
        split: prod.splits sum.splits)
  have mismatch: "fst (CheckAndSet tr opts marshal k v m c) = (0, Some ErrVersionMismatch)"
    if "marshal m = Inr b" "0 < sint (RequestTimeout opts)" "fst ?txn = Inr r \<and> \<not> Succeeded r"
    for r
    using that
    by (auto simp: CheckAndSet_def Let_def CompareEqual_String_def deferred_timeout
        split: prod.splits sum.splits)
  have success: "fst (CheckAndSet tr opts marshal k v m c) = (v + 1, None)"
    if "marshal m = Inr b" "0 < sint (RequestTimeout opts)" "fst ?txn = Inr r \<and> Succeeded r"
    for r
    using that
    by (auto simp: CheckAndSet_def Let_def CompareEqual_String_def deferred_timeout
        split: prod.splits sum.splits)
  from panic one mismatch success show ?thesis by blast
qed

theorem CheckAndSet_contract_witness:
  "exMarshal ''m'' = Inr ''m'' \<and>
   kv (snd (CheckAndSet txnOK exOpts exMarshal ''k'' 2 ''m'' exClient)) = 1 \<and>
   fst (CheckAndSet txnOK exOpts exMarshal ''k'' 2 ''m'' exClient) = (3, None) \<and>
   fst (CheckAndSet txnFail exOpts exMarshal ''k'' 2 ''m'' exClient) = (0, Some ErrVersionMismatch) \<and>
   RequestTimeout exOptsNoTimeout = 0 \<and>
   kv (snd (CheckAndSet txnOK exOptsNoTimeout exMarshal ''k'' 2 ''m'' exClient)) = 1 \<and>
   fst (CheckAndSet txnOK exOptsNoTimeout exMarshal ''k'' 2 ''m'' exClient)
     = (0, Some RuntimePanic)"
proof -
  have m: "exMarshal ''m'' = Inr ''m''" by (simp add: exMarshal_def)
  have ok: "kvTxn txnOK cmps ops n =
      (Inr \<lparr>Succeeded = True,
            Responses = [ResponsePut \<lparr>PrevKv = Some (exKV ''a'' 2 7)\<rparr>, ResponsePut \<lparr>PrevKv = None\<rparr>]\<rparr>,
       Suc n)" for cmps ops n
    by (simp add: txnOK_def scripted_def)
  have fail: "kvTxn txnFail cmps ops n = (Inr \<lparr>Succeeded = False, Responses = []\<rparr>, Suc n)"
    for cmps ops n
    by (simp add: txnFail_def scripted_def)
  have k0: "kv exClient = 0" by (simp add: exClient_def)
  have t: "0 < sint (RequestTimeout exOpts)" by (simp add: exOpts_simps)
  have nt: "\<not> 0 < sint (RequestTimeout exOptsNoTimeout)" by (simp add: exOptsNoTimeout_simps)
  have z: "RequestTimeout exOptsNoTimeout = 0" by (simp add: exOptsNoTimeout_def)
  from CheckAndSet_contract [where marshal = exMarshal and m = "''m''" and b = "''m''"
      and tr = txnOK and opts = exOpts and k = "''k''" and v = 2 and c = exClient,
      THEN conjunct2, rule_format, OF m] t
  have a: "kv (snd (CheckAndSet txnOK exOpts exMarshal ''k'' 2 ''m'' exClient)) = 1"
    and b: "fst (CheckAndSet txnOK exOpts exMarshal ''k'' 2 ''m'' exClient) = (3, None)"
    by (simp_all add: ok k0)
  from CheckAndSet_contract [where marshal = exMarshal and m = "''m''" and b = "''m''"
      and tr = txnFail and opts = exOpts and k = "''k''" and v = 2 and c = exClient,
      THEN conjunct2, rule_format, OF m] t
  have c: "fst (CheckAndSet txnFail exOpts exMarshal ''k'' 2 ''m'' exClient)
             = (0, Some ErrVersionMismatch)"
    by (simp add: fail)
  from CheckAndSet_contract [where marshal = exMarshal and m = "''m''" and b = "''m''"
      and tr = txnOK and opts = exOptsNoTimeout and k = "''k''" and v = 2 and c = exClient,
      THEN conjunct2, rule_format, OF m]
  have d: "kv (snd (CheckAndSet txnOK exOptsNoTimeout exMarshal ''k'' 2 ''m'' exClient)) = 1"
    by (simp add: ok k0)
  from CheckAndSet_contract [THEN conjunct1, rule_format, OF nt]
  have e: "fst (CheckAndSet txnOK exOptsNoTimeout exMarshal ''k'' 2 ''m'' exClient)
     = (0, Some RuntimePanic)" .
  from m a b c d e z show ?thesis by simp
qed

text \<open>
  C7. SetIfNotExists returns what CheckAndSet with expected version 0 returns, the
  version-mismatch error replaced by the already-exists error: the version, every other
  error and the client state left behind are those of CheckAndSet.
\<close>

theorem SetIfNotExists_remaps:
  "CheckAndSet tr opts marshal k 0 m c = ((ver, err), c') \<Longrightarrow>
   SetIfNotExists tr opts marshal k m c =
     ((ver, if err = Some ErrVersionMismatch then Some ErrAlreadyExists else err), c')"
  by (simp add: SetIfNotExists_def etcdVersionZero_def)

theorem SetIfNotExists_remaps_witness:
  "CheckAndSet txnFail exOpts exMarshal ''k'' 0 ''m'' exClient
     = ((0, Some ErrVersionMismatch), exClient\<lparr>kv := 1\<rparr>) \<and>
   SetIfNotExists txnFail exOpts exMarshal ''k'' ''m'' exClient
     = ((0, Some ErrAlreadyExists), exClient\<lparr>kv := 1\<rparr>) \<and>
   CheckAndSet txnOK exOpts exMarshal ''k'' 0 ''m'' exClient = ((1, None), exClient\<lparr>kv := 1\<rparr>) \<and>
   SetIfNotExists txnOK exOpts exMarshal ''k'' ''m'' exClient = ((1, None), exClient\<lparr>kv := 1\<rparr>) \<and>
   CheckAndSet down exOpts exMarshal ''k'' 0 ''m'' exClient
     = ((0, Some (TransportError ''unavailable'')), exClient\<lparr>kv := 1, etcdTnxError := 1\<rparr>) \<and>
   SetIfNotExists down exOpts exMarshal ''k'' ''m'' exClient
     = ((0, Some (TransportError ''unavailable'')), exClient\<lparr>kv := 1, etcdTnxError := 1\<rparr>)"
proof -
  have a: "CheckAndSet txnFail exOpts exMarshal ''k'' 0 ''m'' exClient
     = ((0, Some ErrVersionMismatch), exClient\<lparr>kv := 1\<rparr>)"
    by (simp add: CheckAndSet_def exOpts_simps deferred_simps exMarshal_def txnFail_def
        scripted_def exClient_def)
  have b: "CheckAndSet txnOK exOpts exMarshal ''k'' 0 ''m'' exClient = ((1, None), exClient\<lparr>kv := 1\<rparr>)"
    by (simp add: CheckAndSet_def exOpts_simps deferred_simps exMarshal_def txnOK_def
        scripted_def exClient_def)
  have c: "CheckAndSet down exOpts exMarshal ''k'' 0 ''m'' exClient
     = ((0, Some (TransportError ''unavailable'')), exClient\<lparr>kv := 1, etcdTnxError := 1\<rparr>)"
    by (simp add: CheckAndSet_def exOpts_simps deferred_simps exMarshal_def down_def
        scripted_def exClient_def unavailable_def)
  show ?thesis
    using a b c SetIfNotExists_remaps [OF a] SetIfNotExists_remaps [OF b]
      SetIfNotExists_remaps [OF c]
    by simp
qed

text \<open>
  C8. On a successful Put, Set leaves the transport in the state after that one Put
  and, with a positive request timeout, returns the version of the previous KV plus one
  when the transport reports a previous KV, and 1 when it reports none. A Commit that
  returns responses has sent one transaction: for every condition the comparison of
  the version of its prefixed key with its value, and for every operation, in order,
  the put of its serialized message under its prefixed key with the previous KV
  requested. The transaction succeeded, there is one response per operation, in order,
  every operation is a SET, and the response of each operation carries the version
  computed by the same rule from the previous KV of the transport's answer to that
  operation (an operation beyond the transport's answers, which etcd does not leave,
  carries none). With a request timeout that is not positive neither method returns
  these: the deferred cancel is the nil \<^verbatim>\<open>noopCancel\<close>, and Set and Commit panic on
  return.
\<close>

theorem Set_and_Commit_versions:
  "(\<not> 0 < sint (RequestTimeout opts) \<longrightarrow>
      fst (Set tr opts marshal k v c) = (0, Some RuntimePanic) \<and>
      fst (Commit tr opts marshal conditions ops c) = Inl RuntimePanic) \<and>
   (marshal v = Inr val \<and> kvPut tr (ApplyPrefix opts k) val [WithPrevKV] (kv c) = (Inr r, ts) \<longrightarrow>
      snd (Set tr opts marshal k v c) = c\<lparr>kv := ts\<rparr> \<and>
      (0 < sint (RequestTimeout opts) \<longrightarrow>
         fst (Set tr opts marshal k v c) =
           (case PrevKv r of None \<Rightarrow> 1 | Some prev \<Rightarrow> kv_Version prev + 1, None))) \<and>
   (Commit tr opts marshal conditions ops c = (Inr out, c') \<longrightarrow>
      (\<exists>cmps etcdOps txr.
          length cmps = length conditions \<and>
          (\<forall>i < length conditions.
             cmps ! i = Compare (CmpVersion (ApplyPrefix opts (cond_Key (conditions ! i)))) ''=''
                          (cond_Value (conditions ! i))) \<and>
          length etcdOps = length ops \<and>
          (\<forall>i < length ops. \<exists>key msg bytes.
             ops ! i = SetOp key msg \<and> marshal msg = Inr bytes \<and>
             etcdOps ! i = OpPut (ApplyPrefix opts key) bytes [WithPrevKV]) \<and>
          kvTxn tr cmps etcdOps (kv c) = (Inr txr, kv c') \<and> Succeeded txr \<and>
          length out = length ops \<and> length (Responses txr) \<le> length ops \<and>
          (\<forall>i < length ops.
             resp_Op (out ! i) = ops ! i \<and>
             (i < length (Responses txr) \<longrightarrow>
                (\<exists>res. Responses txr ! i = ResponsePut res \<and>
                   resp_Value (out ! i) =
                     Some (case PrevKv res of None \<Rightarrow> 1 | Some prev \<Rightarrow> kv_Version prev + 1))) \<and>
             (length (Responses txr) \<le> i \<longrightarrow> resp_Value (out ! i) = None))))"
proof -
  have panic: "fst (Set tr opts marshal k v c) = (0, Some RuntimePanic) \<and>
      fst (Commit tr opts marshal conditions ops c) = Inl RuntimePanic"
    if "\<not> 0 < sint (RequestTimeout opts)"
    using that by (simp add: Set_def Commit_def deferred_nil)
  have set: "snd (Set tr opts marshal k v c) = c\<lparr>kv := ts\<rparr> \<and>
      (0 < sint (RequestTimeout opts) \<longrightarrow>
         fst (Set tr opts marshal k v c) =
           (case PrevKv r of None \<Rightarrow> 1 | Some prev \<Rightarrow> kv_Version prev + 1, None))"
    if "marshal v = Inr val \<and> kvPut tr (ApplyPrefix opts k) val [WithPrevKV] (kv c) = (Inr r, ts)"
    using that
    by (auto simp: Set_def etcdVersionZero_def snd_deferred deferred_timeout split: option.splits)
  have commit: "\<exists>cmps etcdOps txr.
          length cmps = length conditions \<and>
          (\<forall>i < length conditions.
             cmps ! i = Compare (CmpVersion (ApplyPrefix opts (cond_Key (conditions ! i)))) ''=''
                          (cond_Value (conditions ! i))) \<and>
          length etcdOps = length ops \<and>
          (\<forall>i < length ops. \<exists>key msg bytes.
             ops ! i = SetOp key msg \<and> marshal msg = Inr bytes \<and>
             etcdOps ! i = OpPut (ApplyPrefix opts key) bytes [WithPrevKV]) \<and>
          kvTxn tr cmps etcdOps (kv c) = (Inr txr, kv c') \<and> Succeeded txr \<and>
          length out = length ops \<and> length (Responses txr) \<le> length ops \<and>
          (\<forall>i < length ops.
             resp_Op (out ! i) = ops ! i \<and>
             (i < length (Responses txr) \<longrightarrow>
                (\<exists>res. Responses txr ! i = ResponsePut res \<and>
                   resp_Value (out ! i) =
                     Some (case PrevKv res of None \<Rightarrow> 1 | Some prev \<Rightarrow> kv_Version prev + 1))) \<and>
             (length (Responses txr) \<le> i \<longrightarrow> resp_Value (out ! i) = None))"
    if run: "Commit tr opts marshal conditions ops c = (Inr out, c')"
  proof -
    from run have t: "0 < sint (RequestTimeout opts)"
      by (cases "0 < sint (RequestTimeout opts)") (auto simp: Commit_def deferred_nil)
    with run obtain cmps etcdOps opResponses txr ts where
      pc: "processConditions opts conditions = Inr cmps" and
      po: "processOps opts marshal ops = Inr (etcdOps, opResponses)" and
      tx: "kvTxn tr cmps etcdOps (kv c) = (Inr txr, ts)" and
      su: "Succeeded txr" and
      sr: "setResponses (Responses txr) opResponses = Inr out" and
      c': "c' = c\<lparr>kv := ts\<rparr>"
      by (auto simp: Commit_def deferred_timeout split: sum.splits prod.splits if_splits)
    from processOps_shape [OF po] have
      oprs: "opResponses = map NewOpResponse ops" and allset: "\<forall>op \<in> set ops. Op_Type op = OpSet"
      by simp_all
    from allset oprs have os: "\<forall>opr \<in> set opResponses. Op_Type (resp_Op opr) = OpSet"
      by (simp add: NewOpResponse_def)
    note sv = setResponses_values [OF sr os]
    note rest = setResponses_rest [OF sr]
    have per_op: "\<forall>i < length ops.
             resp_Op (out ! i) = ops ! i \<and>
             (i < length (Responses txr) \<longrightarrow>
                (\<exists>res. Responses txr ! i = ResponsePut res \<and>
                   resp_Value (out ! i) =
                     Some (case PrevKv res of None \<Rightarrow> 1 | Some prev \<Rightarrow> kv_Version prev + 1))) \<and>
             (length (Responses txr) \<le> i \<longrightarrow> resp_Value (out ! i) = None)"
    proof (intro allI impI conjI)
      fix i assume i: "i < length ops"
      with sv oprs show "resp_Op (out ! i) = ops ! i" by (simp add: NewOpResponse_def)
      {
        assume "i < length (Responses txr)"
        with sv show "\<exists>res. Responses txr ! i = ResponsePut res \<and>
                   resp_Value (out ! i) =
                     Some (case PrevKv res of None \<Rightarrow> 1 | Some prev \<Rightarrow> kv_Version prev + 1)"
          by blast
      }
      {
        assume "length (Responses txr) \<le> i"
        with rest i oprs have "out ! i = NewOpResponse (ops ! i)" by simp
        then show "resp_Value (out ! i) = None" by (simp add: NewOpResponse_def)
      }
    qed
    from sv oprs have len: "length out = length ops \<and> length (Responses txr) \<le> length ops"
      by simp
    from processConditions_shape [OF pc] processOps_requests [OF po] tx su c' len per_op
    show ?thesis by (intro exI [of _ cmps] exI [of _ etcdOps] exI [of _ txr]) simp
  qed
  from panic set commit show ?thesis by blast
qed

theorem Set_and_Commit_versions_witness:
  "Set putFirst exOpts exMarshal ''k'' ''m'' exClient = ((1, None), exClient\<lparr>kv := 1\<rparr>) \<and>
   Set putNext exOpts exMarshal ''k'' ''m'' exClient = ((3, None), exClient\<lparr>kv := 1\<rparr>) \<and>
   Commit txnOK exOpts exMarshal
       [\<lparr>cond_TargetType = TargetVersion, cond_CompareType = CompareEqual,
         cond_Key = ''k'', cond_Value = 2\<rparr>]
       [SetOp ''k'' ''m1'', SetOp ''j'' ''m2''] exClient
     = (Inr [\<lparr>resp_Op = SetOp ''k'' ''m1'', resp_Value = Some 3\<rparr>,
             \<lparr>resp_Op = SetOp ''j'' ''m2'', resp_Value = Some 1\<rparr>], exClient\<lparr>kv := 1\<rparr>) \<and>
   RequestTimeout exOptsNoTimeout = 0 \<and>
   fst (Set putNext exOptsNoTimeout exMarshal ''k'' ''m'' exClient) = (0, Some RuntimePanic) \<and>
   snd (Set putNext exOptsNoTimeout exMarshal ''k'' ''m'' exClient) = exClient\<lparr>kv := 1\<rparr> \<and>
   fst (Commit txnOK exOptsNoTimeout exMarshal
       [\<lparr>cond_TargetType = TargetVersion, cond_CompareType = CompareEqual,
         cond_Key = ''k'', cond_Value = 2\<rparr>]
       [SetOp ''k'' ''m1'', SetOp ''j'' ''m2''] exClient) = Inl RuntimePanic"
proof -
  have m: "exMarshal ''m'' = Inr ''m''" by (simp add: exMarshal_def)
  have t: "0 < sint (RequestTimeout exOpts)" by (simp add: exOpts_simps)
  have nt: "\<not> 0 < sint (RequestTimeout exOptsNoTimeout)" by (simp add: exOptsNoTimeout_simps)
  have z: "RequestTimeout exOptsNoTimeout = 0" by (simp add: exOptsNoTimeout_def)
  have p1: "exMarshal ''m'' = Inr ''m'' \<and>
            kvPut putFirst (ApplyPrefix exOpts ''k'') ''m'' [WithPrevKV] (kv exClient)
              = (Inr \<lparr>PrevKv = None\<rparr>, 1)"
    by (simp add: m putFirst_def scripted_def exClient_def)
  have p2: "exMarshal ''m'' = Inr ''m'' \<and>
            kvPut putNext (ApplyPrefix opts ''k'') ''m'' [WithPrevKV] (kv exClient)
              = (Inr \<lparr>PrevKv = Some (exKV ''a'' 2 7)\<rparr>, 1)" for opts
    by (simp add: m putNext_def scripted_def exClient_def)
  from Set_and_Commit_versions [where marshal = exMarshal and v = "''m''" and opts = exOpts,
      THEN conjunct2, THEN conjunct1, rule_format, OF p1] t
  have a: "Set putFirst exOpts exMarshal ''k'' ''m'' exClient = ((1, None), exClient\<lparr>kv := 1\<rparr>)"
    by (simp add: prod_eq_iff)
  from Set_and_Commit_versions [where marshal = exMarshal and v = "''m''" and opts = exOpts,
      THEN conjunct2, THEN conjunct1, rule_format, OF p2] t
  have b: "Set putNext exOpts exMarshal ''k'' ''m'' exClient = ((3, None), exClient\<lparr>kv := 1\<rparr>)"
    by (simp add: exKV_def prod_eq_iff)
  from Set_and_Commit_versions [where marshal = exMarshal and v = "''m''"
      and opts = exOptsNoTimeout, THEN conjunct2, THEN conjunct1, rule_format, OF p2]
  have b': "snd (Set putNext exOptsNoTimeout exMarshal ''k'' ''m'' exClient) = exClient\<lparr>kv := 1\<rparr>"
    by simp
  let ?conds = "[\<lparr>cond_TargetType = TargetVersion, cond_CompareType = CompareEqual,
                  cond_Key = ''k'', cond_Value = 2\<rparr>]"
  let ?ops = "[SetOp ''k'' ''m1'', SetOp ''j'' ''m2'']"
  have p: "fst (Set putNext exOptsNoTimeout exMarshal ''k'' ''m'' exClient) = (0, Some RuntimePanic)"
    by (rule Set_and_Commit_versions [THEN conjunct1, rule_format, OF nt, THEN conjunct1])
  have q: "fst (Commit txnOK exOptsNoTimeout exMarshal ?conds ?ops exClient) = Inl RuntimePanic"
    by (rule Set_and_Commit_versions [THEN conjunct1, rule_format, OF nt, THEN conjunct2])
  obtain out c' where run: "Commit txnOK exOpts exMarshal ?conds ?ops exClient = (Inr out, c')"
    and c': "c' = exClient\<lparr>kv := 1\<rparr>"
    by (simp add: Commit_def exOpts_simps deferred_simps processCondition_def processOp_def
        exMarshal_def txnOK_def scripted_def exClient_def NewOpResponse_def)
  from Set_and_Commit_versions [THEN conjunct2, THEN conjunct2, rule_format, OF run]
  obtain cmps etcdOps txr where
    tx: "kvTxn txnOK cmps etcdOps (kv exClient) = (Inr txr, kv c')" and
    len: "length out = length ?ops" and
    ops: "\<forall>i < length ?ops.
             resp_Op (out ! i) = ?ops ! i \<and>
             (i < length (Responses txr) \<longrightarrow>
                (\<exists>res. Responses txr ! i = ResponsePut res \<and>
                   resp_Value (out ! i) =
                     Some (case PrevKv res of None \<Rightarrow> 1 | Some prev \<Rightarrow> kv_Version prev + 1))) \<and>
             (length (Responses txr) \<le> i \<longrightarrow> resp_Value (out ! i) = None)"
    by blast
  from tx have txr: "txr = \<lparr>Succeeded = True,
           Responses = [ResponsePut \<lparr>PrevKv = Some (exKV ''a'' 2 7)\<rparr>, ResponsePut \<lparr>PrevKv = None\<rparr>]\<rparr>"
    by (simp add: txnOK_def scripted_def)
  from len obtain o1 o2 where out: "out = [o1, o2]"
    by (cases out; cases "tl out"; cases "tl (tl out)") auto
  from ops [rule_format, of 0] ops [rule_format, of 1] out txr
  have "resp_Op o1 = SetOp ''k'' ''m1''" "resp_Op o2 = SetOp ''j'' ''m2''"
    "resp_Value o1 = Some 3" "resp_Value o2 = Some 1"
    by (auto simp: exKV_def)
  then have "out = [\<lparr>resp_Op = SetOp ''k'' ''m1'', resp_Value = Some 3\<rparr>,
             \<lparr>resp_Op = SetOp ''j'' ''m2'', resp_Value = Some 1\<rparr>]"
    using out by simp
  with a b b' p q z run c' show ?thesis by simp
qed

text \<open>
  C9. Delete issues the transport's delete for the fully-qualified key with the
  previous KV requested. When the transport reports zero deleted keys, the client is
  as it was but for the transport's state and, with a positive request timeout, Delete
  fails with NotFound; otherwise, with a first previous KV, the cache entry of the
  fully-qualified key is removed by \<^verbatim>\<open>deleteCache\<close> and, with a positive request
  timeout, Delete returns the Value built from that KV. With a request timeout that is
  not positive it returns neither: the deferred cancel is the nil \<^verbatim>\<open>noopCancel\<close>, and
  Delete panics on return.
\<close>

theorem Delete_contract:
  "(\<not> 0 < sint (RequestTimeout opts) \<longrightarrow> fst (Delete tr opts k c) = (None, Some RuntimePanic)) \<and>
   (kvDelete tr (ApplyPrefix opts k) [WithPrevKV] (kv c) = (Inr r, ts) \<longrightarrow>
      (Deleted r = 0 \<longrightarrow>
         (0 < sint (RequestTimeout opts) \<longrightarrow> fst (Delete tr opts k c) = (None, Some ErrNotFound)) \<and>
         snd (Delete tr opts k c) = c\<lparr>kv := ts\<rparr>) \<and>
      (Deleted r \<noteq> 0 \<and> PrevKvs r = p # ps \<longrightarrow>
         (0 < sint (RequestTimeout opts) \<longrightarrow>
            fst (Delete tr opts k c) =
              (Some (newValue (kv_Value p) (kv_Version p) (kv_ModRevision p)), None)) \<and>
         snd (Delete tr opts k c) = deleteCache (ApplyPrefix opts k) (c\<lparr>kv := ts\<rparr>) \<and>
         cacheValues (snd (Delete tr opts k c)) = (cacheValues c)(ApplyPrefix opts k := None)))"
proof -
  have panic: "fst (Delete tr opts k c) = (None, Some RuntimePanic)"
    if "\<not> 0 < sint (RequestTimeout opts)"
    using that by (simp add: Delete_def deferred_nil)
  have none: "(0 < sint (RequestTimeout opts) \<longrightarrow>
        fst (Delete tr opts k c) = (None, Some ErrNotFound)) \<and>
      snd (Delete tr opts k c) = c\<lparr>kv := ts\<rparr>"
    if "kvDelete tr (ApplyPrefix opts k) [WithPrevKV] (kv c) = (Inr r, ts)" "Deleted r = 0"
    using that by (simp add: Delete_def Let_def snd_deferred deferred_timeout)
  have some: "(0 < sint (RequestTimeout opts) \<longrightarrow>
        fst (Delete tr opts k c) =
          (Some (newValue (kv_Value p) (kv_Version p) (kv_ModRevision p)), None)) \<and>
      snd (Delete tr opts k c) = deleteCache (ApplyPrefix opts k) (c\<lparr>kv := ts\<rparr>) \<and>
      cacheValues (snd (Delete tr opts k c)) = (cacheValues c)(ApplyPrefix opts k := None)"
    if "kvDelete tr (ApplyPrefix opts k) [WithPrevKV] (kv c) = (Inr r, ts)"
      "Deleted r \<noteq> 0 \<and> PrevKvs r = p # ps"
    using that
    by (simp add: Delete_def Let_def snd_deferred deferred_timeout cacheValues_deleteCache)
  from panic none some show ?thesis by blast
qed

theorem Delete_contract_witness:
  "kvDelete delNone (ApplyPrefix exOpts ''k'') [WithPrevKV] (kv exClient)
     = (Inr \<lparr>Deleted = 0, PrevKvs = []\<rparr>, 1) \<and>
   Delete delNone exOpts ''k'' exClient = ((None, Some ErrNotFound), exClient\<lparr>kv := 1\<rparr>) \<and>
   kvDelete delOK (ApplyPrefix exOpts ''k'') [WithPrevKV] (kv exClient)
     = (Inr \<lparr>Deleted = 1, PrevKvs = [exKV ''a'' 2 7]\<rparr>, 1) \<and>
   fst (Delete delOK exOpts ''k'' exClient) = (Some (newValue ''a'' 2 7), None) \<and>
   cacheValues (snd (Delete delOK exOpts ''k'' exClient)) ''/p/k'' = None \<and>
   cacheUpdatedCh (snd (Delete delOK exOpts ''k'' exClient)) = 1 \<and>
   RequestTimeout exOptsNoTimeout = 0 \<and>
   fst (Delete delOK exOptsNoTimeout ''k'' exClient) = (None, Some RuntimePanic) \<and>
   cacheValues (snd (Delete delOK exOptsNoTimeout ''k'' exClient)) ''/p/k'' = None"
proof -
  have none: "kvDelete delNone (ApplyPrefix exOpts ''k'') [WithPrevKV] (kv exClient)
     = (Inr \<lparr>Deleted = 0, PrevKvs = []\<rparr>, 1)"
    by (simp add: delNone_def scripted_def exClient_def)
  have ok: "kvDelete delOK (ApplyPrefix opts ''k'') [WithPrevKV] (kv exClient)
     = (Inr \<lparr>Deleted = 1, PrevKvs = [exKV ''a'' 2 7]\<rparr>, 1)" for opts
    by (simp add: delOK_def scripted_def exClient_def)
  have key: "ApplyPrefix exOpts ''k'' = ''/p/k''" "ApplyPrefix exOptsNoTimeout ''k'' = ''/p/k''"
    by (simp_all add: exOpts_simps exOptsNoTimeout_simps)
  have t: "0 < sint (RequestTimeout exOpts)" by (simp add: exOpts_simps)
  have nt: "\<not> 0 < sint (RequestTimeout exOptsNoTimeout)" by (simp add: exOptsNoTimeout_simps)
  have z: "RequestTimeout exOptsNoTimeout = 0" by (simp add: exOptsNoTimeout_def)
  from Delete_contract [THEN conjunct2, rule_format, OF none] t
  have a: "Delete delNone exOpts ''k'' exClient = ((None, Some ErrNotFound), exClient\<lparr>kv := 1\<rparr>)"
    by (simp add: prod_eq_iff)
  from Delete_contract [where opts = exOpts and p = "exKV ''a'' 2 7" and ps = "[]",
      THEN conjunct2, rule_format, OF ok] t
  have b: "fst (Delete delOK exOpts ''k'' exClient) = (Some (newValue ''a'' 2 7), None)"
    and c: "cacheValues (snd (Delete delOK exOpts ''k'' exClient)) ''/p/k'' = None"
    and d: "cacheUpdatedCh (snd (Delete delOK exOpts ''k'' exClient)) = 1"
    by (simp_all add: key exKV_def deleteCache_def notifyCacheUpdate_def exClient_def)
  from Delete_contract [THEN conjunct1, rule_format, OF nt]
  have e: "fst (Delete delOK exOptsNoTimeout ''k'' exClient) = (None, Some RuntimePanic)" .
  from Delete_contract [where opts = exOptsNoTimeout and p = "exKV ''a'' 2 7" and ps = "[]",
      THEN conjunct2, rule_format, OF ok]
  have f: "cacheValues (snd (Delete delOK exOptsNoTimeout ''k'' exClient)) ''/p/k'' = None"
    by (simp add: key cacheValues_deleteCache)
  from none ok [of exOpts] a b c d e f z show ?thesis by simp
qed

subsection \<open>The update callback\<close>

text \<open>
  C3 (as stated, refuted). The retried point read of an empty batch fails with NotFound,
  the watchable of the key holds a value, and the callback does deliver an Update to
  it: afterwards the watchable holds nil.
\<close>

theorem update_NotFound_counterexample:
  "fst (Attempt (MaxRetries exOpts) (getFromKVStore_fn getMiss exOpts ''/p/k'')
          ((None, None), exClient)) = Some (NonRetryableError ErrNotFound) \<and>
   watchables exClient ''/p/k'' = Some (ValueW (Some (EtcdValue (newValue ''a'' 2 7)))) \<and>
   watchables (snd (update getMiss exOpts valueWatchable ''/p/k'' [] exClient)) ''/p/k''
     = Some (ValueW None)"
  by (simp add: miss_attempt update_def getFromKVStore_def valueWatchable_def)
     (simp add: exClient_def)

text \<open>
  C3 (amended). On an empty event batch the callback makes the retried point read.
  The read leaves the registry as it was. When it fails with an error other than
  NotFound, the callback does nothing more and returns nil (a panic apart, which
  goes on): no Update is delivered and the watchable holds what it held. A read that
  misses is not retried: when the first read returns NotFound, it is the only one. When
  the read ends in NotFound, \<^verbatim>\<open>getFromKVStore\<close> returns a nil value and no error, and the callback
  goes on as for a deletion: it fails when the registry has no single-value watchable
  for the key, does nothing when the watchable holds nil, and otherwise delivers
  \<^verbatim>\<open>Update(nil)\<close> to the watchable.
\<close>

theorem update_empty_batch:
  assumes "Attempt (MaxRetries opts) (getFromKVStore_fn tr opts key) ((None, None), c)
             = (Some e, (lastRead, c1))"
  shows "watchables c1 = watchables c \<and>
    (snd (fst (get tr opts key c)) = Some ErrNotFound \<longrightarrow>
       getFromKVStore tr opts key c = ((None, None), snd (get tr opts key c))) \<and>
    (e \<noteq> NonRetryableError ErrNotFound \<longrightarrow>
       update tr opts wo key [] c = (if e = RuntimePanic then Some RuntimePanic else None, c1)) \<and>
    (e = NonRetryableError ErrNotFound \<longrightarrow>
       getFromKVStore tr opts key c = ((None, None), c1) \<and>
       update tr opts wo key [] c =
         (case watchables c key of
            None \<Rightarrow> (Some (NoWatchableFound key), c1)
          | Some (PrefixW _) \<Rightarrow> (Some (ValueWatchableNotFound key), c1)
          | Some (ValueW w) \<Rightarrow>
              if wGet wo w = None then (None, c1)
              else (fst (wUpdate wo None w),
                    c1\<lparr>watchables := (watchables c)(key \<mapsto> ValueW (snd (wUpdate wo None w)))\<rparr>)))"
proof -
  obtain nv err where lr: "lastRead = (nv, err)" by (cases lastRead)
  from Attempt_result [OF assms [unfolded lr], of c]
  have w: "watchables c1 = watchables c"
    and r: "Some e = (if err = Some ErrNotFound then Some (NonRetryableError ErrNotFound) else err)"
    and n: "err \<noteq> None \<longrightarrow> nv = None \<and>
      (err = Some ErrNotFound \<or> err = Some RuntimePanic \<or> (\<exists>m. err = Some (TransportError m)))"
    by simp_all
  from r n have nv: "nv = None"
    by (auto split: if_splits)
  from r n have e: "e = NonRetryableError ErrNotFound \<or> e = RuntimePanic \<or> (\<exists>m. e = TransportError m)"
    by (auto split: if_splits)
  have a: "update tr opts wo key [] c = (if e = RuntimePanic then Some RuntimePanic else None, c1)"
    if "e \<noteq> NonRetryableError ErrNotFound"
    using that e assms lr by (auto simp: update_def getFromKVStore_def)
  have b: "getFromKVStore tr opts key c = ((None, None), c1)" if "e = NonRetryableError ErrNotFound"
    using that assms lr nv by (simp add: getFromKVStore_def)
  have c: "update tr opts wo key [] c =
         (case watchables c key of
            None \<Rightarrow> (Some (NoWatchableFound key), c1)
          | Some (PrefixW _) \<Rightarrow> (Some (ValueWatchableNotFound key), c1)
          | Some (ValueW w) \<Rightarrow>
              if wGet wo w = None then (None, c1)
              else (fst (wUpdate wo None w),
                    c1\<lparr>watchables := (watchables c)(key \<mapsto> ValueW (snd (wUpdate wo None w)))\<rparr>))"
    if "e = NonRetryableError ErrNotFound"
    using b [OF that] w
    by (auto simp: update_def Let_def split: option.splits watchable.splits prod.splits)
  from w a b c miss_not_retried [of tr opts key c] show ?thesis by blast
qed

theorem update_empty_batch_witness:
  "update down exOpts valueWatchable ''/p/x'' [] exClient
     = (None, exClient\<lparr>kv := 3, etcdGetError := 3\<rparr>) \<and>
   getFromKVStore getMiss exOpts ''/p/k'' exClient
     = ((None, None), exClient\<lparr>kv := 1, cacheValues := Map.empty, cacheUpdatedCh := 1\<rparr>) \<and>
   update getMiss exOpts valueWatchable ''/p/k'' [] exClient
     = (None, exClient\<lparr>kv := 1, cacheValues := Map.empty, cacheUpdatedCh := 1,
                       watchables := [''/p/k'' \<mapsto> ValueW None]\<rparr>)"
proof -
  have w: "watchables exClient ''/p/k'' = Some (ValueW (Some (EtcdValue (newValue ''a'' 2 7))))"
    "watchables exClient = [''/p/k'' \<mapsto> ValueW (Some (EtcdValue (newValue ''a'' 2 7)))]"
    by (simp_all add: exClient_def)
  from update_empty_batch [OF down_attempt, of valueWatchable]
  have a: "update down exOpts valueWatchable ''/p/x'' [] exClient
     = (None, exClient\<lparr>kv := 3, etcdGetError := 3\<rparr>)"
    by simp
  from update_empty_batch [OF miss_attempt, of valueWatchable]
  have b: "getFromKVStore getMiss exOpts ''/p/k'' exClient
     = ((None, None), exClient\<lparr>kv := 1, cacheValues := Map.empty, cacheUpdatedCh := 1\<rparr>)"
    and c: "update getMiss exOpts valueWatchable ''/p/k'' [] exClient
     = (None, exClient\<lparr>kv := 1, cacheValues := Map.empty, cacheUpdatedCh := 1,
                       watchables := [''/p/k'' \<mapsto> ValueW None]\<rparr>)"
    by (simp_all add: w valueWatchable_def)
  from a b c show ?thesis by simp
qed

end
